theory Spec2Isabelle
  imports Complex_Main
begin

section \<open>Data model\<close>

text \<open>
  Coordinates are Python floats; they are modelled as real numbers, so every statement
  below is about exact arithmetic. A point is the two-element list \<open>[x, y]\<close> of the
  source, a track (polyline) is a list of points.
\<close>

type_synonym point = "real \<times> real"
type_synonym track = "point list"

text \<open>A Python float that is either a finite number or \<open>float('inf')\<close>.\<close>

datatype xreal = Fin real | PInf

fun xless :: "xreal \<Rightarrow> real \<Rightarrow> bool" where
  "xless (Fin x) t = (x < t)"
| "xless PInf t = False"

text \<open>Constants of \<open>RoadMapper/config.py\<close>.\<close>

definition MIN_TRACK_DURATION_SECONDS :: real where
  "MIN_TRACK_DURATION_SECONDS = 3"

definition HAUSDORFF_THRESHOLD :: real where
  "HAUSDORFF_THRESHOLD = 20"

definition ENDPOINT_SNAP_TOLERANCE :: real where
  "ENDPOINT_SNAP_TOLERANCE = 15"

definition SMOOTHING_WINDOW_SIZE :: nat where
  "SMOOTHING_WINDOW_SIZE = 5"

definition MIN_TRACK_POINTS :: nat where
  "MIN_TRACK_POINTS = 5"

section \<open>Geometry utilities (\<open>RoadMapper/lane_processing.py\<close>)\<close>

text \<open>The Python slice \<open>xs[s:e]\<close> for \<open>0 \<le> s\<close> and \<open>0 \<le> e\<close>.\<close>

definition slice :: "'a list \<Rightarrow> nat \<Rightarrow> nat \<Rightarrow> 'a list" where
  "slice xs s e = take (e - s) (drop s xs)"

text \<open>\<open>np.mean(rows, axis=0)\<close> on an array of points: the mean of each column.\<close>

definition mean_axis0 :: "point list \<Rightarrow> point" where
  "mean_axis0 ps =
     (sum_list (map fst ps) / real (length ps), sum_list (map snd ps) / real (length ps))"

text \<open>
  \<open>smooth_polyline\<close>. The window size is a count (the configuration constant 5), hence a
  natural number; \<open>i - window_size div 2\<close> is the truncated subtraction, which is what
  \<open>max(0, i - window_size // 2)\<close> computes.
\<close>

definition smooth_polyline :: "track \<Rightarrow> nat \<Rightarrow> track" where
  "smooth_polyline points window_size =
     (if length points < window_size then points
      else map (\<lambda>i. let start = max 0 (i - window_size div 2);
                         stop = min (length points) (i + window_size div 2 + 1)
                     in mean_axis0 (slice points start stop))
               [0..<length points])"

text \<open>
  A point is a convex combination of a list of points when it is their weighted sum with
  non-negative weights that add up to one: it lies in their convex hull.
\<close>

definition convex_combination :: "point \<Rightarrow> point list \<Rightarrow> bool" where
  "convex_combination p qs \<longleftrightarrow>
     (\<exists>cs. length cs = length qs \<and> (\<forall>c\<in>set cs. 0 \<le> c) \<and> sum_list cs = 1 \<and>
           p = (sum_list (map2 (\<lambda>c q. c * fst q) cs qs),
                sum_list (map2 (\<lambda>c q. c * snd q) cs qs)))"

text \<open>Euclidean distance, as computed by scipy and by shapely's \<open>Point.distance\<close>.\<close>

definition euclidean :: "point \<Rightarrow> point \<Rightarrow> real" where
  "euclidean a b = sqrt ((fst a - fst b)\<^sup>2 + (snd a - snd b)\<^sup>2)"

text \<open>
  \<open>scipy.spatial.distance.directed_hausdorff(u, v)[0]\<close>: the largest, over the points of
  \<open>u\<close>, of the distance to the nearest point of \<open>v\<close>. It is only called on arrays with at
  least two rows.
\<close>

definition directed_hausdorff :: "track \<Rightarrow> track \<Rightarrow> real" where
  "directed_hausdorff u v = Max ((\<lambda>a. Min ((\<lambda>b. euclidean a b) ` set v)) ` set u)"

definition calculate_hausdorff_distance :: "track \<Rightarrow> track \<Rightarrow> xreal" where
  "calculate_hausdorff_distance line1 line2 =
     (if length line1 < 2 \<or> length line2 < 2 then PInf
      else let d1 = directed_hausdorff line1 line2;
               d2 = directed_hausdorff line2 line1
           in Fin (max d1 d2))"

section \<open>Track consolidation (\<open>RoadMapper/lane_processing.py\<close>)\<close>

subsection \<open>Clustering: \<open>merge_similar_tracks\<close>\<close>

text \<open>
  The inner loop \<open>for j, track2 in enumerate(tracks[i+1:], i+1)\<close>. Its state is the list
  \<open>similar_tracks\<close> and the set \<open>used\<close>.
\<close>

fun scan_later :: "track \<Rightarrow> real \<Rightarrow> (nat \<times> track) list \<Rightarrow> track list \<times> nat set
                     \<Rightarrow> track list \<times> nat set" where
  "scan_later track1 threshold [] (similar_tracks, used) = (similar_tracks, used)"
| "scan_later track1 threshold ((j, track2) # rest) (similar_tracks, used) =
     (if j \<in> used then scan_later track1 threshold rest (similar_tracks, used)
      else if xless (calculate_hausdorff_distance track1 track2) threshold
        then scan_later track1 threshold rest (similar_tracks @ [track2], insert j used)
        else scan_later track1 threshold rest (similar_tracks, used))"

text \<open>
  The outer loop \<open>for i, track1 in enumerate(tracks)\<close>. Its state is the list \<open>merged\<close>
  and the set \<open>used\<close>. A cluster of one track is appended as it is; a larger cluster is
  concatenated and smoothed with the default window.
\<close>

fun merge_loop :: "track list \<Rightarrow> real \<Rightarrow> (nat \<times> track) list \<Rightarrow> track list \<times> nat set
                     \<Rightarrow> track list" where
  "merge_loop tracks threshold [] (merged, used) = merged"
| "merge_loop tracks threshold ((i, track1) # rest) (merged, used) =
     (if i \<in> used then merge_loop tracks threshold rest (merged, used)
      else
        let (similar_tracks, used') =
              scan_later track1 threshold
                (List.enumerate (i + 1) (drop (i + 1) tracks)) ([track1], insert i used)
        in if length similar_tracks = 1
           then merge_loop tracks threshold rest (merged @ [track1], used')
           else
             let centroid_track = concat similar_tracks
             in merge_loop tracks threshold rest
                  (merged @ [smooth_polyline centroid_track SMOOTHING_WINDOW_SIZE], used'))"

definition merge_similar_tracks :: "track list \<Rightarrow> real \<Rightarrow> track list" where
  "merge_similar_tracks tracks threshold =
     (if length tracks \<le> 1 then tracks
      else merge_loop tracks threshold (List.enumerate 0 tracks) ([], {}))"

text \<open>
  The greedy clustering in the words of the specification, on track indices: every
  not-yet-assigned track seeds a cluster, which takes the later not-yet-assigned tracks
  whose shape distance to the seed is below the threshold. A cluster is a list of indices,
  the seed first.
\<close>

fun seed_clusters :: "track list \<Rightarrow> real \<Rightarrow> nat list \<Rightarrow> nat set \<Rightarrow> nat list list" where
  "seed_clusters tracks threshold [] assigned = []"
| "seed_clusters tracks threshold (i # rest) assigned =
     (if i \<in> assigned then seed_clusters tracks threshold rest assigned
      else
        let later = filter (\<lambda>j. j \<notin> assigned \<and>
                        xless (calculate_hausdorff_distance (tracks ! i) (tracks ! j)) threshold)
                      [i + 1..<length tracks]
        in (i # later) # seed_clusters tracks threshold rest (assigned \<union> set (i # later)))"

subsection \<open>Endpoint snapping: \<open>snap_endpoints\<close>\<close>

text \<open>
  One iteration of the inner loop \<open>for other_track in tracks\<close>: the endpoints of the
  original \<open>track\<close> are compared with the endpoints of \<open>other_track\<close>, and the copy
  \<open>snapped_track\<close> is updated at index 0 and at index -1. The loop only runs for a
  \<open>track\<close> of at least two points and skips a shorter \<open>other_track\<close>, so \<open>track[0]\<close>,
  \<open>track[-1]\<close>, \<open>other_track[0]\<close> and \<open>other_track[-1]\<close> exist: they are \<open>hd\<close> and \<open>last\<close>.
\<close>

definition snap_step :: "track \<Rightarrow> real \<Rightarrow> track \<Rightarrow> track \<Rightarrow> track" where
  "snap_step track tolerance other_track snapped_track =
     (if other_track = track \<or> length other_track < 2 then snapped_track
      else
        let start_point = hd track;
            end_point = last track;
            other_start = hd other_track;
            other_end = last other_track;
            snapped1 =
              (if euclidean start_point other_start < tolerance
                 then snapped_track[0 := other_start]
               else if euclidean start_point other_end < tolerance
                 then snapped_track[0 := other_end]
               else snapped_track)
        in if euclidean end_point other_start < tolerance
             then snapped1[length snapped1 - 1 := other_start]
           else if euclidean end_point other_end < tolerance
             then snapped1[length snapped1 - 1 := other_end]
           else snapped1)"

definition snap_track :: "track list \<Rightarrow> real \<Rightarrow> track \<Rightarrow> track" where
  "snap_track tracks tolerance track = fold (snap_step track tolerance) tracks track"

fun snap_loop :: "track list \<Rightarrow> real \<Rightarrow> track list \<Rightarrow> track list" where
  "snap_loop tracks tolerance [] = []"
| "snap_loop tracks tolerance (track # rest) =
     (if length track < 2 then snap_loop tracks tolerance rest
      else snap_track tracks tolerance track # snap_loop tracks tolerance rest)"

definition snap_endpoints :: "track list \<Rightarrow> real \<Rightarrow> track list" where
  "snap_endpoints tracks tolerance =
     (if length tracks \<le> 1 then tracks else snap_loop tracks tolerance tracks)"

subsection \<open>Filtering: \<open>filter_valid_tracks\<close>\<close>

text \<open>Python's \<open>int(x)\<close> on a float: truncation towards zero.\<close>

definition py_int :: "real \<Rightarrow> int" where
  "py_int x = (if 0 \<le> x then \<lfloor>x\<rfloor> else \<lceil>x\<rceil>)"

text \<open>
  \<open>all_tracks\<close> is a dictionary iterated in insertion order, hence an association list.
  \<open>track_frame_counts\<close> is the \<open>defaultdict(int)\<close> built by \<open>process_video_tracks\<close>: a
  missing key reads as 0.
\<close>

type_synonym track_id = int

definition frame_count :: "(track_id \<rightharpoonup> int) \<Rightarrow> track_id \<Rightarrow> int" where
  "frame_count track_frame_counts trackID =
     (case track_frame_counts trackID of None \<Rightarrow> 0 | Some c \<Rightarrow> c)"

fun filter_loop :: "(track_id \<rightharpoonup> int) \<Rightarrow> int \<Rightarrow> (track_id \<times> track) list \<Rightarrow> track list" where
  "filter_loop track_frame_counts min_frames [] = []"
| "filter_loop track_frame_counts min_frames ((trackID, track_points) # rest) =
     (if frame_count track_frame_counts trackID \<ge> min_frames
         \<and> length track_points \<ge> MIN_TRACK_POINTS
      then smooth_polyline track_points SMOOTHING_WINDOW_SIZE
             # filter_loop track_frame_counts min_frames rest
      else filter_loop track_frame_counts min_frames rest)"

definition filter_valid_tracks ::
    "(track_id \<times> track) list \<Rightarrow> (track_id \<rightharpoonup> int) \<Rightarrow> real \<Rightarrow> track list" where
  "filter_valid_tracks all_tracks track_frame_counts fps =
     (let min_frames = py_int (MIN_TRACK_DURATION_SECONDS * fps)
      in filter_loop track_frame_counts min_frames all_tracks)"

definition process_tracks ::
    "(track_id \<times> track) list \<Rightarrow> (track_id \<rightharpoonup> int) \<Rightarrow> real \<Rightarrow> track list" where
  "process_tracks all_tracks track_frame_counts fps =
     (let valid_tracks = filter_valid_tracks all_tracks track_frame_counts fps
      in if length valid_tracks = 0 then []
         else snap_endpoints (merge_similar_tracks valid_tracks HAUSDORFF_THRESHOLD)
                ENDPOINT_SNAP_TOLERANCE)"

section \<open>Lane index (\<open>VehiclePathPredictorV1/lane_manager.py\<close>)\<close>

text \<open>
  A lane is the dictionary \<open>{'id', 'coords', 'linestring'}\<close>; the linestring is built from
  the coordinates, so the record keeps the coordinates only.
\<close>

record lane =
  lane_ident :: int
  coords :: "point list"

text \<open>
  The shapely operations used on a linestring. \<open>LineString.length\<close> is the sum of the
  segment lengths. \<open>LineString.interpolate(d)\<close> is the point at distance \<open>d\<close> along the
  line: distances beyond the ends are clipped to the end points and a negative distance is
  measured back from the end. An empty linestring has no point, and reading the
  coordinates of the empty result raises.
\<close>

fun line_length :: "point list \<Rightarrow> real" where
  "line_length (p # q # rest) = euclidean p q + line_length (q # rest)"
| "line_length _ = 0"

fun interpolate_from :: "point list \<Rightarrow> real \<Rightarrow> point option" where
  "interpolate_from [] d = None"
| "interpolate_from [p] d = Some p"
| "interpolate_from (p # q # rest) d =
     (let seg = euclidean p q
      in if d < seg
         then Some (fst p + (d / seg) * (fst q - fst p), snd p + (d / seg) * (snd q - snd p))
         else interpolate_from (q # rest) (d - seg))"

definition interpolate :: "point list \<Rightarrow> real \<Rightarrow> point option" where
  "interpolate cs d =
     (if d < 0 then interpolate_from cs (max 0 (line_length cs + d))
      else interpolate_from cs d)"

text \<open>
  The remaining shapely queries (\<open>Point.distance(linestring)\<close>, \<open>nearest_points\<close> and
  \<open>LineString.project\<close>) are parameters of the model.
\<close>

record shapely =
  ls_distance :: "point \<Rightarrow> point list \<Rightarrow> real"
  ls_nearest :: "point \<Rightarrow> point list \<Rightarrow> point"
  ls_project :: "point list \<Rightarrow> point \<Rightarrow> real"

record nearby_lane =
  nb_lane :: lane
  nb_distance :: real
  nb_closest_point :: point
  nb_progress :: real

fun within_loop :: "shapely \<Rightarrow> point \<Rightarrow> real \<Rightarrow> lane list \<Rightarrow> nearby_lane list" where
  "within_loop geo point_geom max_distance [] = []"
| "within_loop geo point_geom max_distance (lane # rest) =
     (let distance = ls_distance geo point_geom (coords lane)
      in if distance \<le> max_distance
         then \<lparr>nb_lane = lane, nb_distance = distance,
               nb_closest_point = ls_nearest geo point_geom (coords lane),
               nb_progress = ls_project geo (coords lane) point_geom\<rparr>
              # within_loop geo point_geom max_distance rest
         else within_loop geo point_geom max_distance rest)"

definition get_lanes_within_distance ::
    "shapely \<Rightarrow> lane list \<Rightarrow> point \<Rightarrow> real \<Rightarrow> nearby_lane list" where
  "get_lanes_within_distance geo lanes point max_distance =
     sort_key nb_distance (within_loop geo point max_distance lanes)"

text \<open>
  The loop of \<open>get_lane_direction_at_progress\<close> over the segments, with the running
  \<open>current_length\<close>; \<open>None\<close> means that the loop ended without returning.
\<close>

fun direction_scan :: "real \<Rightarrow> real \<Rightarrow> (point \<times> point) list \<Rightarrow> point option" where
  "direction_scan target_length current_length [] = None"
| "direction_scan target_length current_length ((p, q) # rest) =
     (let seg_length = sqrt ((fst q - fst p)\<^sup>2 + (snd q - snd p)\<^sup>2)
      in if current_length + seg_length \<ge> target_length
         then
           let dx = fst q - fst p; dy = snd q - snd p
           in if dx = 0 \<and> dy = 0 then direction_scan target_length current_length rest
              else let len = sqrt (dx * dx + dy * dy) in Some (dx / len, dy / len)
         else direction_scan target_length (current_length + seg_length) rest)"

definition get_lane_direction_at_progress :: "lane \<Rightarrow> real \<Rightarrow> point option" where
  "get_lane_direction_at_progress lane progress =
     (let cs = coords lane
      in if length cs < 2 then None
         else
           let total_length = line_length cs
           in if total_length = 0 then None
              else
                let segments = zip (butlast cs) (tl cs);
                    cumulative_length =
                      sum_list (map (\<lambda>(p, q). sqrt ((fst q - fst p)\<^sup>2 + (snd q - snd p)\<^sup>2))
                                    segments)
                in if cumulative_length = 0 then None
                   else
                     let target_length = (progress / total_length) * cumulative_length
                     in case direction_scan target_length 0 segments of
                          Some d \<Rightarrow> Some d
                        | None \<Rightarrow>
                            let dx = fst (last cs) - fst (last (butlast cs));
                                dy = snd (last cs) - snd (last (butlast cs));
                                len = sqrt (dx * dx + dy * dy)
                            in if len > 0 then Some (dx / len, dy / len) else None)"

text \<open>
  The loop of \<open>get_path_along_lane\<close> over \<open>range(num_points)\<close>, with its \<open>break\<close>. Reading
  the coordinates of an empty interpolation result raises; the result is then \<open>None\<close>.
\<close>

fun path_loop :: "point list \<Rightarrow> real \<Rightarrow> real \<Rightarrow> real \<Rightarrow> nat list \<Rightarrow> point list
                    \<Rightarrow> point list option" where
  "path_loop cs start_progress progress_step max_progress [] path_points = Some path_points"
| "path_loop cs start_progress progress_step max_progress (i # rest) path_points =
     (let current_progress = min (start_progress + (real i * progress_step)) (line_length cs)
      in case interpolate cs current_progress of
           None \<Rightarrow> None
         | Some point \<Rightarrow>
             if current_progress \<ge> max_progress then Some (path_points @ [point])
             else path_loop cs start_progress progress_step max_progress rest
                    (path_points @ [point]))"

text \<open>\<open>get_path_along_lane\<close>; the \<open>except\<close> clause turns any exception into \<open>[]\<close>.\<close>

definition get_path_along_lane :: "lane \<Rightarrow> real \<Rightarrow> real \<Rightarrow> nat \<Rightarrow> point list" where
  "get_path_along_lane lane start_progress distance num_points =
     (let end_progress = start_progress + distance
      in if line_length (coords lane) \<le> start_progress then []
         else
           let max_progress = min end_progress (line_length (coords lane))
           in if max_progress \<le> start_progress then []
              else
                let progress_step =
                      (max_progress - start_progress) / real (max 1 (num_points - 1))
                in case path_loop (coords lane) start_progress progress_step max_progress
                          [0..<num_points] [] of
                     Some path_points \<Rightarrow> path_points
                   | None \<Rightarrow> [])"

section \<open>Trajectory predictor (\<open>VehiclePathPredictorV1/vehicle_predictor.py\<close>)\<close>

text \<open>Constants of \<open>VehiclePathPredictorV1/config.py\<close>.\<close>

definition FUTURE_PREDICTION_SECONDS :: real where
  "FUTURE_PREDICTION_SECONDS = 2"

definition PROCESSING_FPS :: real where
  "PROCESSING_FPS = 50"

text \<open>
  A subscript of a Python list raises \<open>IndexError\<close> out of range; a negative index counts
  from the end. A computation that can raise returns a sum, the exception on the left.
\<close>

datatype py_error = IndexError

definition py_index :: "'a list \<Rightarrow> int \<Rightarrow> py_error + 'a" where
  "py_index xs i =
     (if 0 \<le> i \<and> i < int (length xs) then Inr (xs ! nat i)
      else if i < 0 \<and> - int (length xs) \<le> i then Inr (xs ! nat (int (length xs) + i))
      else Inl IndexError)"

definition ebind :: "py_error + 'a \<Rightarrow> ('a \<Rightarrow> py_error + 'b) \<Rightarrow> py_error + 'b" where
  "ebind m f = (case m of Inl e \<Rightarrow> Inl e | Inr x \<Rightarrow> f x)"

fun emap :: "('a \<Rightarrow> py_error + 'b) \<Rightarrow> 'a list \<Rightarrow> py_error + 'b list" where
  "emap f [] = Inr []"
| "emap f (x # xs) = ebind (f x) (\<lambda>y. ebind (emap f xs) (\<lambda>ys. Inr (y # ys)))"

text \<open>The Python \<open>range(a, b)\<close> on integers.\<close>

definition py_range :: "int \<Rightarrow> int \<Rightarrow> int list" where
  "py_range a b = [a..b - 1]"

record lane_prediction =
  lane_id :: int
  probability :: real
  path_points :: "point list"
  lane_direction :: point
  alignment :: real
  distance_to_lane :: real
  travel_distance :: real

text \<open>
  \<open>_calculate_smoothed_velocity\<close>: the mean of the velocities of the last three frame
  pairs, each a displacement divided by \<open>dt = 1 / PROCESSING_FPS\<close>.
\<close>

definition calculate_smoothed_velocity :: "point list \<Rightarrow> py_error + point option" where
  "calculate_smoothed_velocity positions =
     (if length positions < 4 then Inr None
      else
        let dt = 1 / PROCESSING_FPS;
            n = int (length positions)
        in ebind
             (emap (\<lambda>i. ebind (py_index positions i) (\<lambda>cur.
                         ebind (py_index positions (i - 1)) (\<lambda>prev.
                           Inr ((fst cur - fst prev) / dt, (snd cur - snd prev) / dt))))
                   (filter (\<lambda>i. i > 0) (py_range (n - 3) n)))
             (\<lambda>velocities.
                if velocities = [] then Inr None
                else Inr (Some (sum_list (map fst velocities) / real (length velocities),
                                sum_list (map snd velocities) / real (length velocities)))))"

definition get_movement_direction :: "point list \<Rightarrow> py_error + point option" where
  "get_movement_direction positions =
     (if length positions < 5 then Inr None
      else
        ebind (py_index positions (- 5)) (\<lambda>start_pos.
        ebind (py_index positions (- 1)) (\<lambda>end_pos.
          let dx = fst end_pos - fst start_pos;
              dy = snd end_pos - snd start_pos;
              len = sqrt (dx * dx + dy * dy)
          in if len < 2 then Inr None
             else Inr (Some (dx / len, dy / len)))))"

definition get_speed :: "point \<Rightarrow> real" where
  "get_speed velocity = sqrt ((fst velocity)\<^sup>2 + (snd velocity)\<^sup>2)"

definition calculate_alignment :: "point \<Rightarrow> point \<Rightarrow> real" where
  "calculate_alignment movement_direction lane_dir =
     \<bar>fst movement_direction * fst lane_dir + snd movement_direction * snd lane_dir\<bar>"

text \<open>
  \<open>_calculate_direction_consistency\<close>. The first loop collects the unit directions of the
  last three frame pairs (a pair without movement gives none), the second sums the
  positive parts of the dot products of consecutive directions.
\<close>

definition calculate_direction_consistency :: "point list \<Rightarrow> py_error + real" where
  "calculate_direction_consistency positions =
     (if length positions < 6 then Inr (1 / 2)
      else
        let n = int (length positions)
        in ebind
             (emap (\<lambda>i. ebind (py_index positions i) (\<lambda>cur.
                         ebind (py_index positions (i - 1)) (\<lambda>prev.
                           let dx = fst cur - fst prev;
                               dy = snd cur - snd prev;
                               len = sqrt (dx * dx + dy * dy)
                           in Inr (if len > 0 then [(dx / len, dy / len)] else []))))
                   (filter (\<lambda>i. i > 0) (py_range (n - 3) n)))
             (\<lambda>found.
                let directions = concat found
                in if length directions < 2 then Inr (1 / 2)
                   else
                     ebind
                       (emap (\<lambda>i. ebind (py_index directions i) (\<lambda>d1.
                                   ebind (py_index directions (i - 1)) (\<lambda>d0.
                                     Inr (max 0 (fst d1 * fst d0 + snd d1 * snd d0)))))
                             (py_range 1 (int (length directions))))
                       (\<lambda>terms.
                          let consistency_sum = sum_list terms; count = length terms
                          in Inr (if count > 0 then consistency_sum / real count else 1 / 2))))"

text \<open>
  \<open>_calculate_lane_probability\<close>. Its parameters \<open>lane\<close> and \<open>movement_direction\<close> are not
  read by the body and are left out.
\<close>

definition calculate_lane_probability :: "point list \<Rightarrow> real \<Rightarrow> real \<Rightarrow> py_error + real" where
  "calculate_lane_probability positions dist_to_lane align =
     (let base0 = align;
          distance_factor = max 0 (1 - (dist_to_lane / 50));
          base1 = base0 * distance_factor
      in ebind (calculate_direction_consistency positions) (\<lambda>consistency.
           let base2 = base1 * (1 / 2 + 1 / 2 * consistency);
               base3 = (if dist_to_lane < 15 then base2 * (3 / 2) else base2)
           in Inr (min 1 base3)))"

definition estimate_travel_distance :: "point \<Rightarrow> real \<Rightarrow> real" where
  "estimate_travel_distance velocity time_horizon =
     get_speed velocity * time_horizon * PROCESSING_FPS * (6 / 10)"

text \<open>
  The loop of \<open>predict_lane_possibilities\<close> over the four nearest lanes; every lane adds
  one prediction to \<open>lane_predictions\<close> or none.
\<close>

fun candidates_loop :: "point list \<Rightarrow> point \<Rightarrow> point \<Rightarrow> real \<Rightarrow> nearby_lane list
                          \<Rightarrow> lane_prediction list \<Rightarrow> py_error + lane_prediction list" where
  "candidates_loop positions smoothed_velocity movement_direction time_horizon []
       lane_predictions = Inr lane_predictions"
| "candidates_loop positions smoothed_velocity movement_direction time_horizon
       (lane_info # rest) lane_predictions =
     (let lane = nb_lane lane_info;
          dist_to_lane = nb_distance lane_info;
          progress = nb_progress lane_info
      in if dist_to_lane > 50
         then candidates_loop positions smoothed_velocity movement_direction time_horizon
                rest lane_predictions
         else
           case get_lane_direction_at_progress lane progress of
             None \<Rightarrow> candidates_loop positions smoothed_velocity movement_direction
                       time_horizon rest lane_predictions
           | Some lane_dir \<Rightarrow>
               let align = calculate_alignment movement_direction lane_dir
               in if align < 3 / 10
                  then candidates_loop positions smoothed_velocity movement_direction
                         time_horizon rest lane_predictions
                  else
                    ebind (calculate_lane_probability positions dist_to_lane align) (\<lambda>prob.
                      if prob > 2 / 10
                      then
                        let prediction_distance =
                              min (estimate_travel_distance smoothed_velocity time_horizon) 120;
                            path = get_path_along_lane lane progress prediction_distance 8
                        in if length path > 1
                           then candidates_loop positions smoothed_velocity movement_direction
                                  time_horizon rest
                                  (lane_predictions @
                                     [\<lparr>lane_id = lane_ident lane, probability = prob,
                                       path_points = path, lane_direction = lane_dir,
                                       alignment = align, distance_to_lane = dist_to_lane,
                                       travel_distance = prediction_distance\<rparr>])
                           else candidates_loop positions smoothed_velocity movement_direction
                                  time_horizon rest lane_predictions
                      else candidates_loop positions smoothed_velocity movement_direction
                             time_horizon rest lane_predictions))"

text \<open>
  \<open>predict_lane_possibilities\<close>. The final \<open>sort(key=probability, reverse=True)\<close> is a
  stable sort in descending order.
\<close>

definition predict_lane_possibilities ::
    "shapely \<Rightarrow> lane list \<Rightarrow> point list \<Rightarrow> real \<Rightarrow> py_error + lane_prediction list" where
  "predict_lane_possibilities geo lanes history time_horizon =
     (if length history < 8 then Inr []
      else
        let positions = history
        in ebind (py_index positions (- 1)) (\<lambda>current_pos.
           ebind (calculate_smoothed_velocity positions) (\<lambda>smoothed_velocity.
             case smoothed_velocity of
               None \<Rightarrow> Inr []
             | Some velocity \<Rightarrow>
                 if get_speed velocity < 1 / 2 then Inr []
                 else
                   ebind (get_movement_direction positions) (\<lambda>movement_direction.
                     case movement_direction of
                       None \<Rightarrow> Inr []
                     | Some direction \<Rightarrow>
                         let nearby_lanes = get_lanes_within_distance geo lanes current_pos 80
                         in if nearby_lanes = [] then Inr []
                            else
                              ebind (candidates_loop positions velocity direction time_horizon
                                       (take 4 nearby_lanes) [])
                                (\<lambda>lane_predictions.
                                   Inr (take 3 (sort_key (\<lambda>x. - probability x)
                                                  lane_predictions)))))))"

section \<open>Prediction smoother (\<open>LaneAwareVehicleTracker.smooth_predictions\<close>)\<close>

text \<open>
  The tracker's dictionary \<open>prediction_smoothing\<close> maps a track to its buffer of recent
  prediction lists. \<open>smooth_predictions\<close> updates the buffer and returns the smoothed
  list; the model returns both.
\<close>

type_synonym smoothing_state = "track_id \<rightharpoonup> lane_prediction list list"

text \<open>The body of the loop over \<open>pred_idx\<close>: the entry it appends, if any.\<close>

definition smooth_entry ::
    "lane_prediction list list \<Rightarrow> lane_prediction list \<Rightarrow> nat \<Rightarrow> lane_prediction list" where
  "smooth_entry buffer new_predictions pred_idx =
     (let lid = lane_id (new_predictions ! pred_idx);
          matching = filter (\<lambda>pred_set. pred_idx < length pred_set
                                \<and> lane_id (pred_set ! pred_idx) = lid) buffer;
          all_paths = map (\<lambda>pred_set. path_points (pred_set ! pred_idx)) matching;
          all_probs = map (\<lambda>pred_set. probability (pred_set ! pred_idx)) matching
      in if all_paths \<noteq> []
         then
           let avg_prob = sum_list all_probs / real (length all_probs);
               current_pred = new_predictions ! pred_idx
           in [current_pred\<lparr>probability := avg_prob * (95 / 100)\<rparr>]
         else [])"

definition smooth_predictions ::
    "smoothing_state \<Rightarrow> track_id \<Rightarrow> lane_prediction list
       \<Rightarrow> lane_prediction list \<times> smoothing_state" where
  "smooth_predictions prediction_smoothing tid new_predictions =
     (let buffer0 = (case prediction_smoothing tid of None \<Rightarrow> [] | Some b \<Rightarrow> b);
          buffer1 = buffer0 @ [new_predictions];
          buffer = (if length buffer1 > 2 then tl buffer1 else buffer1);
          state = prediction_smoothing(tid \<mapsto> buffer)
      in if length buffer = 1 then (new_predictions, state)
         else
           (concat (map (smooth_entry buffer new_predictions)
                        [0..<Min (length ` set buffer)]),
            state))"

section \<open>Properties of the geometry utilities\<close>

lemma slice_eq_map_nth:
  assumes "e \<le> length xs"
  shows "slice xs s e = map (\<lambda>k. xs ! k) [s..<e]"
proof (rule nth_equalityI)
  show "length (slice xs s e) = length (map (\<lambda>k. xs ! k) [s..<e])"
    using assms by (simp add: slice_def)
next
  fix i assume "i < length (slice xs s e)"
  then have "i < e - s" by (simp add: slice_def)
  then show "slice xs s e ! i = map (\<lambda>k. xs ! k) [s..<e] ! i"
    using assms by (simp add: slice_def)
qed

lemma sum_list_map_upt:
  fixes f :: "nat \<Rightarrow> real"
  shows "sum_list (map f [s..<e]) = (\<Sum>k = s..<e. f k)"
  by (simp add: interv_sum_list_conv_sum_set_nat)

lemma mean_axis0_slice:
  assumes "e \<le> length ps"
  shows "mean_axis0 (slice ps s e) =
         ((\<Sum>k = s..<e. fst (ps ! k)) / real (e - s), (\<Sum>k = s..<e. snd (ps ! k)) / real (e - s))"
proof -
  have "map fst (slice ps s e) = map (\<lambda>k. fst (ps ! k)) [s..<e]"
       "map snd (slice ps s e) = map (\<lambda>k. snd (ps ! k)) [s..<e]"
    using assms by (simp_all add: slice_eq_map_nth)
  moreover have "length (slice ps s e) = e - s"
    using assms by (simp add: slice_def)
  ultimately show ?thesis
    by (simp add: mean_axis0_def sum_list_map_upt)
qed

lemma zip_replicate_left: "zip (replicate (length qs) c) qs = map (Pair c) qs"
  by (induction qs) simp_all

lemma sum_list_divide_const:
  fixes k :: real
  shows "sum_list (map (\<lambda>x. f x / k) xs) = sum_list (map f xs) / k"
  by (induction xs) (simp_all add: add_divide_distrib)

lemma mean_axis0_convex:
  assumes "qs \<noteq> []"
  shows "convex_combination (mean_axis0 qs) qs"
proof -
  define c :: real where "c = 1 / real (length qs)"
  have pos: "0 \<le> c" by (simp add: c_def)
  have one: "sum_list (replicate (length qs) c) = 1"
    using assms by (simp add: sum_list_replicate c_def)
  have "sum_list (map2 (\<lambda>c q. c * fst q) (replicate (length qs) c) qs)
          = sum_list (map fst qs) / real (length qs)"
       "sum_list (map2 (\<lambda>c q. c * snd q) (replicate (length qs) c) qs)
          = sum_list (map snd qs) / real (length qs)"
    by (simp_all add: zip_replicate_left comp_def c_def sum_list_divide_const)
  then have "mean_axis0 qs =
               (sum_list (map2 (\<lambda>c q. c * fst q) (replicate (length qs) c) qs),
                sum_list (map2 (\<lambda>c q. c * snd q) (replicate (length qs) c) qs))"
    by (simp add: mean_axis0_def)
  with pos one show ?thesis
    unfolding convex_combination_def
    by (intro exI [of _ "replicate (length qs) c"]) auto
qed

text \<open>
  C7. \<open>smooth_polyline\<close> returns a sequence shorter than the window unchanged. Otherwise
  the output has the length of the input, and output point \<open>i\<close> is the arithmetic mean of
  the input points with indices in \<open>[max(0, i - w div 2), min(n, i + w div 2 + 1))\<close>, a
  non-empty range: each coordinate is the sum over the range divided by its size. Hence
  the output point is a convex combination of the points of its window.
\<close>

theorem smooth_polyline_window_mean:
  fixes ps :: track and w :: nat
  shows "(length ps < w \<longrightarrow> smooth_polyline ps w = ps) \<and>
         (\<not> length ps < w \<longrightarrow>
            length (smooth_polyline ps w) = length ps \<and>
            (\<forall>i<length ps.
               let a = nat (max 0 (int i - int (w div 2)));
                   b = min (length ps) (i + w div 2 + 1)
               in a < b \<and>
                  smooth_polyline ps w ! i =
                    ((\<Sum>k = a..<b. fst (ps ! k)) / real (b - a),
                     (\<Sum>k = a..<b. snd (ps ! k)) / real (b - a)) \<and>
                  convex_combination (smooth_polyline ps w ! i) (map (\<lambda>k. ps ! k) [a..<b])))"
proof (intro conjI impI allI)
  assume "length ps < w"
  then show "smooth_polyline ps w = ps" by (simp add: smooth_polyline_def)
next
  assume "\<not> length ps < w"
  then show "length (smooth_polyline ps w) = length ps" by (simp add: smooth_polyline_def)
next
  fix i assume big: "\<not> length ps < w" and i: "i < length ps"
  define b where "b = min (length ps) (i + w div 2 + 1)"
  have a: "nat (max 0 (int i - int (w div 2))) = i - w div 2" by simp
  have b: "b \<le> length ps" by (simp add: b_def)
  have nth: "smooth_polyline ps w ! i = mean_axis0 (slice ps (i - w div 2) b)"
    using big i by (simp add: smooth_polyline_def Let_def b_def)
  have lt: "i - w div 2 < b" using i unfolding b_def by arith
  have win: "slice ps (i - w div 2) b = map (\<lambda>k. ps ! k) [i - w div 2..<b]"
    using b by (rule slice_eq_map_nth)
  have "map (\<lambda>k. ps ! k) [i - w div 2..<b] \<noteq> []" using lt by simp
  then have hull: "convex_combination (mean_axis0 (slice ps (i - w div 2) b))
                     (map (\<lambda>k. ps ! k) [i - w div 2..<b])"
    unfolding win by (rule mean_axis0_convex)
  show "let a = nat (max 0 (int i - int (w div 2))); b = min (length ps) (i + w div 2 + 1)
        in a < b \<and>
           smooth_polyline ps w ! i =
             ((\<Sum>k = a..<b. fst (ps ! k)) / real (b - a),
              (\<Sum>k = a..<b. snd (ps ! k)) / real (b - a)) \<and>
           convex_combination (smooth_polyline ps w ! i) (map (\<lambda>k. ps ! k) [a..<b])"
    unfolding Let_def a b_def [symmetric] nth
    using lt mean_axis0_slice [OF b] hull by simp
qed

theorem smooth_polyline_window_mean_witness:
  "length [(0,0),(2,2)::point] < 5 \<and>
   smooth_polyline [(0,0),(2,2)] 5 = [(0,0),(2,2)] \<and>
   \<not> length [(0,0),(3,6),(6,0)::point] < 3 \<and>
   length (smooth_polyline [(0,0),(3,6),(6,0)] 3) = 3 \<and>
   smooth_polyline [(0,0),(3,6),(6,0)] 3 ! 0 = (3 / 2, 3)"
proof -
  have small: "length [(0,0),(2,2)::point] < 5" by simp
  have big: "\<not> length [(0,0),(3,6),(6,0)::point] < 3" by simp
  note short =
    smooth_polyline_window_mean [of "[(0,0),(2,2)]" 5, THEN conjunct1, rule_format, OF small]
  note long =
    smooth_polyline_window_mean [of "[(0,0),(3,6),(6,0)]" 3, THEN conjunct2, rule_format, OF big]
  note at0 = long [THEN conjunct2, rule_format, of 0]
  have s2: "\<And>f::nat \<Rightarrow> real. (\<Sum>k = 0..<2. f k) = f 0 + f 1"
    by (simp add: numeral_2_eq_2)
  show ?thesis
    using short long [THEN conjunct1] at0
    by (simp add: Let_def s2)
qed


subsection \<open>Shape distance\<close>

lemma euclidean_self: "euclidean a a = 0"
  by (simp add: euclidean_def)

lemma euclidean_nonneg: "0 \<le> euclidean a b"
  by (simp add: euclidean_def)

lemma euclidean_less_iff:
  assumes "0 < t"
  shows "euclidean a b < t \<longleftrightarrow> (fst a - fst b)\<^sup>2 + (snd a - snd b)\<^sup>2 < t\<^sup>2"
proof -
  have "sqrt (t\<^sup>2) = t" using assms by simp
  then show ?thesis
    unfolding euclidean_def
    using real_sqrt_less_iff [of "(fst a - fst b)\<^sup>2 + (snd a - snd b)\<^sup>2" "t\<^sup>2"]
    by simp
qed

lemma nearest_to_member:
  assumes "a \<in> set A"
  shows "Min ((\<lambda>b. euclidean a b) ` set A) = 0"
proof (rule Min_eqI)
  show "finite ((\<lambda>b. euclidean a b) ` set A)" by simp
  show "\<And>y. y \<in> (\<lambda>b. euclidean a b) ` set A \<Longrightarrow> 0 \<le> y"
    by (auto simp: euclidean_nonneg)
  show "0 \<in> (\<lambda>b. euclidean a b) ` set A"
    by (rule image_eqI [where x = a]) (simp_all add: euclidean_self assms)
qed

lemma directed_hausdorff_self:
  assumes "A \<noteq> []"
  shows "directed_hausdorff A A = 0"
proof -
  have "(\<lambda>a. Min ((\<lambda>b. euclidean a b) ` set A)) ` set A = (\<lambda>a. 0) ` set A"
    by (rule image_cong) (simp_all add: nearest_to_member)
  also have "\<dots> = {0}" using assms by (simp add: image_constant_conv)
  finally show ?thesis by (simp add: directed_hausdorff_def)
qed

text \<open>
  C8. The shape distance is symmetric, it is 0 between a polyline of at least two points
  and itself, and it is \<open>+\<infinity>\<close> as soon as one argument has fewer than two points.
\<close>

theorem hausdorff_symmetric_self_inf:
  "calculate_hausdorff_distance A B = calculate_hausdorff_distance B A \<and>
   (2 \<le> length A \<longrightarrow> calculate_hausdorff_distance A A = Fin 0) \<and>
   (length A < 2 \<or> length B < 2 \<longrightarrow> calculate_hausdorff_distance A B = PInf)"
proof (intro conjI impI)
  show "calculate_hausdorff_distance A B = calculate_hausdorff_distance B A"
    by (simp add: calculate_hausdorff_distance_def Let_def max.commute disj_commute)
next
  assume two: "2 \<le> length A"
  then have "A \<noteq> []" by auto
  then have "directed_hausdorff A A = 0" by (rule directed_hausdorff_self)
  with two show "calculate_hausdorff_distance A A = Fin 0"
    by (simp add: calculate_hausdorff_distance_def)
next
  assume "length A < 2 \<or> length B < 2"
  then show "calculate_hausdorff_distance A B = PInf"
    by (auto simp: calculate_hausdorff_distance_def)
qed

theorem hausdorff_symmetric_self_inf_witness:
  "2 \<le> length [(0,0),(3,4)::point] \<and>
   calculate_hausdorff_distance [(0,0),(3,4)] [(0,0),(3,4)] = Fin 0 \<and>
   (length [(1,1)::point] < 2 \<or> length [(0,0),(3,4)::point] < 2) \<and>
   calculate_hausdorff_distance [(1,1)] [(0,0),(3,4)] = PInf"
proof -
  have two: "2 \<le> length [(0,0),(3,4)::point]" by simp
  have short: "length [(1,1)::point] < 2 \<or> length [(0,0),(3,4)::point] < 2" by simp
  note self = hausdorff_symmetric_self_inf
                [of "[(0,0),(3,4)]" "[(0,0),(3,4)]", THEN conjunct2, THEN conjunct1, rule_format, OF two]
  note inf = hausdorff_symmetric_self_inf
                [of "[(1,1)]" "[(0,0),(3,4)]", THEN conjunct2, THEN conjunct2, rule_format, OF short]
  show ?thesis using two short self inf by simp
qed

section \<open>Properties of endpoint snapping\<close>

lemma snap_step_length: "length (snap_step track tol other snapped) = length snapped"
  by (simp add: snap_step_def Let_def)

lemma snap_step_interior:
  assumes "0 < i" and "i + 1 < length snapped"
  shows "snap_step track tol other snapped ! i = snapped ! i"
  using assms by (simp add: snap_step_def Let_def)

lemma fold_snap_step:
  "length (fold (snap_step track tol) others snapped) = length snapped \<and>
   (0 < i \<and> i + 1 < length snapped \<longrightarrow>
      fold (snap_step track tol) others snapped ! i = snapped ! i)"
proof (induction others arbitrary: snapped)
  case Nil
  show ?case by simp
next
  case (Cons other others)
  show ?case
    using Cons.IH [of "snap_step track tol other snapped"]
    by (simp add: snap_step_length snap_step_interior)
qed

lemma snap_loop_map:
  "snap_loop tracks tol rest = map (snap_track tracks tol) (filter (\<lambda>t. 2 \<le> length t) rest)"
  by (induction rest) (auto simp: not_less)

text \<open>
  C10. On more than one track, \<open>snap_endpoints\<close> returns one track for every input track
  of at least two points, in order, and leaves out the shorter ones; each returned track
  has the length of its input track and the same point at every index other than the
  first and the last.
\<close>

theorem snap_endpoints_frame:
  assumes "1 < length tracks"
  shows "let kept = filter (\<lambda>t. 2 \<le> length t) tracks;
             out = snap_endpoints tracks tol
         in length out = length kept \<and>
            (\<forall>k<length kept.
               length (out ! k) = length (kept ! k) \<and>
               (\<forall>i. 0 < i \<and> i + 1 < length (kept ! k) \<longrightarrow> out ! k ! i = kept ! k ! i))"
proof -
  have out: "snap_endpoints tracks tol =
             map (snap_track tracks tol) (filter (\<lambda>t. 2 \<le> length t) tracks)"
    using assms by (simp add: snap_endpoints_def snap_loop_map)
  show ?thesis
    unfolding Let_def out
    by (simp add: snap_track_def fold_snap_step)
qed

theorem snap_endpoints_frame_witness:
  "1 < length [[(0,0),(5,5),(100,0)], [(110,0),(150,5),(200,0)], [(7,7)::point]] \<and>
   length (snap_endpoints [[(0,0),(5,5),(100,0)], [(110,0),(150,5),(200,0)], [(7,7)]] 15) = 2 \<and>
   length (snap_endpoints [[(0,0),(5,5),(100,0)], [(110,0),(150,5),(200,0)], [(7,7)]] 15 ! 0) = 3 \<and>
   snap_endpoints [[(0,0),(5,5),(100,0)], [(110,0),(150,5),(200,0)], [(7,7)]] 15 ! 0 ! 1 = (5,5)"
proof -
  have h: "1 < length [[(0,0),(5,5),(100,0)], [(110,0),(150,5),(200,0)], [(7,7)::point]]"
    by simp
  note frame = snap_endpoints_frame [OF h, of 15, unfolded Let_def]
  note first = frame [THEN conjunct2, rule_format, of 0]
  show ?thesis
    using h frame [THEN conjunct1] first
    by simp
qed

text \<open>
  C2. Two polylines whose facing endpoints \<open>(100, 0)\<close> and \<open>(110, 0)\<close> are 10 units apart,
  snapped with tolerance 15: each polyline takes the other's original endpoint, so the two
  endpoints are exchanged and still differ. With the endpoints 20 units apart, at
  \<open>(100, 0)\<close> and \<open>(120, 0)\<close>, nothing changes.
\<close>

theorem snap_endpoints_exchanges_endpoints:
  "snap_endpoints [[(0,0),(100,0)], [(110,0),(200,0)]] 15
     = [[(0,0),(110,0)], [(100,0),(200,0)]] \<and>
   last (snap_endpoints [[(0,0),(100,0)], [(110,0),(200,0)]] 15 ! 0)
     \<noteq> hd (snap_endpoints [[(0,0),(100,0)], [(110,0),(200,0)]] 15 ! 1) \<and>
   snap_endpoints [[(0,0),(100,0)], [(120,0),(200,0)]] 15
     = [[(0,0),(100,0)], [(120,0),(200,0)]]"
  by (simp add: snap_endpoints_def snap_track_def snap_step_def euclidean_less_iff)


section \<open>Properties of the filter stage\<close>

lemma filter_loop_map_filter:
  "filter_loop counts min_frames all_tracks =
     map (\<lambda>(k, pts). smooth_polyline pts SMOOTHING_WINDOW_SIZE)
       (filter (\<lambda>(k, pts). min_frames \<le> frame_count counts k \<and> MIN_TRACK_POINTS \<le> length pts)
          all_tracks)"
  by (induction counts min_frames all_tracks rule: filter_loop.induct) simp_all

text \<open>
  C9. With the threshold \<open>int(MIN_TRACK_DURATION_SECONDS * fps)\<close>, the filter stage returns
  the smoothed tracks of exactly those entries, in order, whose frame count is at least
  the threshold and whose point count is at least \<open>MIN_TRACK_POINTS\<close>. An entry whose
  frame count is one below the threshold contributes nothing; an entry at the threshold
  (with enough points) contributes its smoothed track.
\<close>

theorem filter_valid_tracks_threshold:
  "filter_valid_tracks all_tracks counts fps =
     map (\<lambda>(k, pts). smooth_polyline pts SMOOTHING_WINDOW_SIZE)
       (filter (\<lambda>(k, pts). py_int (MIN_TRACK_DURATION_SECONDS * fps) \<le> frame_count counts k
                          \<and> MIN_TRACK_POINTS \<le> length pts)
          all_tracks) \<and>
   (frame_count counts k = py_int (MIN_TRACK_DURATION_SECONDS * fps) - 1 \<longrightarrow>
      filter_valid_tracks (before @ (k, pts) # after) counts fps =
        filter_valid_tracks before counts fps @ filter_valid_tracks after counts fps) \<and>
   (frame_count counts k = py_int (MIN_TRACK_DURATION_SECONDS * fps)
      \<and> MIN_TRACK_POINTS \<le> length pts \<longrightarrow>
      filter_valid_tracks (before @ (k, pts) # after) counts fps =
        filter_valid_tracks before counts fps
          @ smooth_polyline pts SMOOTHING_WINDOW_SIZE # filter_valid_tracks after counts fps)"
  by (simp add: filter_valid_tracks_def filter_loop_map_filter Let_def)

theorem filter_valid_tracks_threshold_witness:
  "frame_count [1 \<mapsto> 3, 2 \<mapsto> 4] 1 = py_int (MIN_TRACK_DURATION_SECONDS * (3 / 2)) - 1 \<and>
   frame_count [1 \<mapsto> 3, 2 \<mapsto> 4] 2 = py_int (MIN_TRACK_DURATION_SECONDS * (3 / 2)) \<and>
   MIN_TRACK_POINTS \<le> length [(0,0),(1,0),(2,0),(3,0),(4,0)::point] \<and>
   filter_valid_tracks
       [(1, [(0,0),(1,0),(2,0),(3,0),(9,0)]), (2, [(0,0),(1,0),(2,0),(3,0),(4,0)])]
       [1 \<mapsto> 3, 2 \<mapsto> 4] (3 / 2)
     = [smooth_polyline [(0,0),(1,0),(2,0),(3,0),(4,0)] SMOOTHING_WINDOW_SIZE]"
proof -
  have below: "frame_count [1 \<mapsto> 3, 2 \<mapsto> 4] 1 = py_int (MIN_TRACK_DURATION_SECONDS * (3 / 2)) - 1"
    by (simp add: frame_count_def py_int_def MIN_TRACK_DURATION_SECONDS_def)
  have at: "frame_count [1 \<mapsto> 3, 2 \<mapsto> 4] 2 = py_int (MIN_TRACK_DURATION_SECONDS * (3 / 2))
            \<and> MIN_TRACK_POINTS \<le> length [(0,0),(1,0),(2,0),(3,0),(4,0)::point]"
    by (simp add: frame_count_def py_int_def MIN_TRACK_DURATION_SECONDS_def MIN_TRACK_POINTS_def)
  note drop1 =
    filter_valid_tracks_threshold
      [of _ "[1 \<mapsto> 3, 2 \<mapsto> 4]" "3 / 2" 1 "[]" "[(0,0),(1,0),(2,0),(3,0),(9,0)]"
          "[(2, [(0,0),(1,0),(2,0),(3,0),(4,0)])]",
       THEN conjunct2, THEN conjunct1, rule_format, OF below]
  note keep2 =
    filter_valid_tracks_threshold
      [of _ "[1 \<mapsto> 3, 2 \<mapsto> 4]" "3 / 2" 2 "[]" "[(0,0),(1,0),(2,0),(3,0),(4,0)]" "[]",
       THEN conjunct2, THEN conjunct2, rule_format, OF at]
  have nil: "filter_valid_tracks [] [1 \<mapsto> 3, 2 \<mapsto> 4] (3 / 2) = []"
    by (simp add: filter_valid_tracks_def)
  show ?thesis using below at drop1 keep2 nil by simp
qed


section \<open>Properties of the clustering stage\<close>

lemma enumerate_drop_nth:
  "List.enumerate k (drop k tracks) = map (\<lambda>j. (j, tracks ! j)) [k..<length tracks]"
proof (rule nth_equalityI)
  show "length (List.enumerate k (drop k tracks)) =
        length (map (\<lambda>j. (j, tracks ! j)) [k..<length tracks])"
    by simp
next
  fix i assume "i < length (List.enumerate k (drop k tracks))"
  then have "i < length tracks - k" by simp
  then show "List.enumerate k (drop k tracks) ! i =
             map (\<lambda>j. (j, tracks ! j)) [k..<length tracks] ! i"
    by (simp add: nth_enumerate_eq)
qed

text \<open>
  The inner loop adds exactly the later tracks that were unused when it started and are
  close to the seed: marking a track as used during the scan does not change the decision
  for any other index, since every index is visited once.
\<close>

lemma scan_later_filter:
  assumes "distinct js"
  shows "scan_later track1 thr (map (\<lambda>j. (j, tracks ! j)) js) (similar, used) =
         (similar @ map (\<lambda>j. tracks ! j)
                      (filter (\<lambda>j. j \<notin> used \<and>
                                 xless (calculate_hausdorff_distance track1 (tracks ! j)) thr) js),
          used \<union> set (filter (\<lambda>j. j \<notin> used \<and>
                                 xless (calculate_hausdorff_distance track1 (tracks ! j)) thr) js))"
  using assms
proof (induction js arbitrary: similar used)
  case Nil
  show ?case by simp
next
  case (Cons j js)
  from Cons.prems have fresh: "j \<notin> set js" and dist: "distinct js" by simp_all
  have same: "filter (\<lambda>j'. j' \<notin> insert j used \<and>
                       xless (calculate_hausdorff_distance track1 (tracks ! j')) thr) js
            = filter (\<lambda>j'. j' \<notin> used \<and>
                       xless (calculate_hausdorff_distance track1 (tracks ! j')) thr) js"
    using fresh by (intro filter_cong) auto
  show ?case
  proof (cases "j \<in> used")
    case True
    then show ?thesis using Cons.IH [OF dist, of similar used] by simp
  next
    case False
    show ?thesis
    proof (cases "xless (calculate_hausdorff_distance track1 (tracks ! j)) thr")
      case True
      with False show ?thesis
        using Cons.IH [OF dist, of "similar @ [tracks ! j]" "insert j used", unfolded same]
        by simp
    next
      case False
      with \<open>j \<notin> used\<close> show ?thesis using Cons.IH [OF dist, of similar used] by simp
    qed
  qed
qed

lemma merge_loop_seed_clusters:
  assumes "\<forall>i\<in>set is. i < length tracks"
  shows "merge_loop tracks thr (map (\<lambda>i. (i, tracks ! i)) is) (merged, used) =
         merged @ map (\<lambda>ms. if length ms = 1 then tracks ! hd ms
                              else smooth_polyline (concat (map (\<lambda>j. tracks ! j) ms))
                                     SMOOTHING_WINDOW_SIZE)
                    (seed_clusters tracks thr is used)"
  using assms
proof (induction "is" arbitrary: merged used)
  case Nil
  show ?case by simp
next
  case (Cons i rest)
  from Cons.prems have rest: "\<forall>i\<in>set rest. i < length tracks" by simp
  define later where
    "later = filter (\<lambda>j. j \<notin> used \<and>
                      xless (calculate_hausdorff_distance (tracks ! i) (tracks ! j)) thr)
               [Suc i..<length tracks]"
  have later': "filter (\<lambda>j. j \<notin> insert i used \<and>
                      xless (calculate_hausdorff_distance (tracks ! i) (tracks ! j)) thr)
               [Suc i..<length tracks] = later"
    unfolding later_def by (intro filter_cong) auto
  have scan: "scan_later (tracks ! i) thr (List.enumerate (Suc i) (drop (Suc i) tracks))
                ([tracks ! i], insert i used)
              = (tracks ! i # map (\<lambda>j. tracks ! j) later, insert i used \<union> set later)"
    unfolding enumerate_drop_nth
    using scan_later_filter [of "[Suc i..<length tracks]" "tracks ! i" thr tracks
                               "[tracks ! i]" "insert i used", unfolded later']
    by simp
  show ?case
  proof (cases "i \<in> used")
    case True
    then show ?thesis using Cons.IH [OF rest, of merged used] by simp
  next
    case False
    have used': "insert i used \<union> set later = used \<union> set (i # later)" by auto
    show ?thesis
    proof (cases "later = []")
      case True
      with False show ?thesis
        using Cons.IH [OF rest, of "merged @ [tracks ! i]" "insert i used"]
        by (simp add: scan later_def [symmetric] Let_def)
    next
      case nonempty: False
      then have len: "length (tracks ! i # map (\<lambda>j. tracks ! j) later) \<noteq> 1" by simp
      from False nonempty show ?thesis
        using Cons.IH [OF rest,
                of "merged @ [smooth_polyline (concat (tracks ! i # map (\<lambda>j. tracks ! j) later))
                                SMOOTHING_WINDOW_SIZE]"
                   "insert i (used \<union> set later)"]
        by (simp add: scan later_def [symmetric] Let_def)
    qed
  qed
qed

text \<open>
  C3, amended. The clusters are those of the greedy seed clustering: the cluster seeded at
  index \<open>i\<close> is track \<open>i\<close> followed by exactly the later not-yet-assigned tracks whose shape
  distance to track \<open>i\<close> is below the threshold. A cluster of two or more tracks collapses
  into the moving-average smoothing of the concatenation of its members' points in cluster
  order; a cluster of a single track is returned as that track, not smoothed again.
\<close>

theorem merge_similar_tracks_clusters:
  "merge_similar_tracks tracks thr =
     map (\<lambda>ms. if length ms = 1 then tracks ! hd ms
                else smooth_polyline (concat (map (\<lambda>j. tracks ! j) ms)) SMOOTHING_WINDOW_SIZE)
       (seed_clusters tracks thr [0..<length tracks] {})"
proof (cases "length tracks \<le> 1")
  case True
  then consider "tracks = []" | t where "tracks = [t]"
    by (cases tracks) (auto simp: le_Suc_eq)
  then show ?thesis
  proof cases
    case 1
    then show ?thesis by (simp add: merge_similar_tracks_def)
  next
    case 2
    then show ?thesis by (simp add: merge_similar_tracks_def)
  qed
next
  case False
  have "List.enumerate 0 tracks = map (\<lambda>i. (i, tracks ! i)) [0..<length tracks]"
    using enumerate_drop_nth [of 0 tracks] by simp
  with False show ?thesis
    using merge_loop_seed_clusters [of "[0..<length tracks]" tracks thr "[]" "{}"]
    by (simp add: merge_similar_tracks_def)
qed


lemma euclidean_ge_iff:
  assumes "0 \<le> t"
  shows "t \<le> euclidean a b \<longleftrightarrow> t\<^sup>2 \<le> (fst a - fst b)\<^sup>2 + (snd a - snd b)\<^sup>2"
proof -
  have "sqrt (t\<^sup>2) = t" using assms by simp
  then show ?thesis
    unfolding euclidean_def
    using real_sqrt_le_iff [of "t\<^sup>2" "(fst a - fst b)\<^sup>2 + (snd a - snd b)\<^sup>2"]
    by simp
qed

lemma directed_hausdorff_ge:
  assumes "u \<noteq> []" and "v \<noteq> []"
    and far: "\<forall>a\<in>set u. \<forall>b\<in>set v. t \<le> euclidean a b"
  shows "t \<le> directed_hausdorff u v"
proof -
  have "t \<le> Min ((\<lambda>b. euclidean (hd u) b) ` set v)"
    using assms by simp
  also have "\<dots> \<le> directed_hausdorff u v"
    unfolding directed_hausdorff_def using \<open>u \<noteq> []\<close> by (intro Max_ge) auto
  finally show ?thesis .
qed

lemma far_tracks_not_similar:
  assumes "u \<noteq> []" and "v \<noteq> []"
    and "\<forall>a\<in>set u. \<forall>b\<in>set v. t \<le> euclidean a b"
  shows "\<not> xless (calculate_hausdorff_distance u v) t"
proof -
  have "t \<le> directed_hausdorff u v" using assms by (rule directed_hausdorff_ge)
  then show ?thesis by (auto simp: calculate_hausdorff_distance_def Let_def)
qed

text \<open>
  C3 as stated fails on single-member clusters. Two tracks of five points each, 100 units
  apart, form two clusters of one track each with threshold 20; the output for the first
  cluster is the track itself, which differs from its moving-average smoothing.
\<close>

theorem merge_single_cluster_not_smoothed:
  "seed_clusters [[(0,0),(1,0),(2,0),(3,0),(10,0)], [(0,100),(1,100),(2,100),(3,100),(10,100)]]
       20 [0..<2] {} = [[0], [1]] \<and>
   merge_similar_tracks
       [[(0,0),(1,0),(2,0),(3,0),(10,0)], [(0,100),(1,100),(2,100),(3,100),(10,100)]] 20 ! 0
     = [(0,0),(1,0),(2,0),(3,0),(10,0)] \<and>
   merge_similar_tracks
       [[(0,0),(1,0),(2,0),(3,0),(10,0)], [(0,100),(1,100),(2,100),(3,100),(10,100)]] 20 ! 0
     \<noteq> smooth_polyline (concat [[(0,0),(1,0),(2,0),(3,0),(10,0)]]) SMOOTHING_WINDOW_SIZE"
proof -
  let ?t1 = "[(0,0),(1,0),(2,0),(3,0),(10,0)] :: track"
  let ?t2 = "[(0,100),(1,100),(2,100),(3,100),(10,100)] :: track"
  have far: "\<not> xless (calculate_hausdorff_distance ?t1 ?t2) 20"
    by (rule far_tracks_not_similar) (simp_all add: euclidean_ge_iff)
  have upt: "[0..<2] = [0, 1]" "[Suc 0..<2] = [1]" "[2..<2] = []"
    by (simp_all add: upt_rec)
  have clusters: "seed_clusters [?t1, ?t2] 20 [0..<2] {} = [[0], [1]]"
    using far by (simp add: upt)
  have merged: "merge_similar_tracks [?t1, ?t2] 20 ! 0 = ?t1"
    using far by (simp add: merge_similar_tracks_def)
  have "smooth_polyline ?t1 SMOOTHING_WINDOW_SIZE ! 0 = (1, 0)"
    by (simp add: smooth_polyline_def SMOOTHING_WINDOW_SIZE_def slice_def mean_axis0_def)
  then have "smooth_polyline ?t1 SMOOTHING_WINDOW_SIZE \<noteq> ?t1" by auto
  with clusters merged show ?thesis by simp
qed


section \<open>Properties of the prediction smoother\<close>

lemma smooth_entry_two:
  assumes "i < length old" and "i < length new"
  shows "smooth_entry [old, new] new i =
         [(new ! i)\<lparr>probability :=
             (if lane_id (old ! i) = lane_id (new ! i)
              then (probability (old ! i) + probability (new ! i)) / 2
              else probability (new ! i)) * (95 / 100)\<rparr>]"
  using assms by (simp add: smooth_entry_def Let_def)

lemma concat_map_singletons:
  assumes "\<And>i. i \<in> set is \<Longrightarrow> f i = [g i]"
  shows "concat (map f is) = map g is"
  using assms by (induction "is") simp_all

lemma smooth_two_lists:
  "concat (map (smooth_entry [old, new] new) [0..<Min (length ` set [old, new])]) =
   map (\<lambda>i. (new ! i)\<lparr>probability :=
                (if lane_id (old ! i) = lane_id (new ! i)
                 then (probability (old ! i) + probability (new ! i)) / 2
                 else probability (new ! i)) * (95 / 100)\<rparr>)
       [0..<min (length old) (length new)]"
proof -
  have m: "Min (length ` set [old, new]) = min (length old) (length new)" by simp
  show ?thesis
    unfolding m by (rule concat_map_singletons) (simp add: smooth_entry_two)
qed

text \<open>
  C1 as stated fails. A vehicle whose buffer holds one list with a prediction for lane 1
  receives a new list with a prediction for lane 2 at the same index: the smoothed output
  still holds the lane 2 entry, with its own probability multiplied by 0.95.
\<close>

theorem smooth_predictions_keeps_mismatch:
  "lane_id (hd [\<lparr>lane_id = 2, probability = 3 / 5, path_points = [(0,0),(1,1)],
                  lane_direction = (1,0), alignment = 1, distance_to_lane = 4,
                  travel_distance = 30\<rparr>])
     \<noteq> lane_id (hd [\<lparr>lane_id = 1, probability = 4 / 5, path_points = [(0,0),(1,0)],
                      lane_direction = (1,0), alignment = 1, distance_to_lane = 3,
                      travel_distance = 30\<rparr>]) \<and>
   fst (smooth_predictions
          [7 \<mapsto> [[\<lparr>lane_id = 1, probability = 4 / 5, path_points = [(0,0),(1,0)],
                     lane_direction = (1,0), alignment = 1, distance_to_lane = 3,
                     travel_distance = 30\<rparr>]]]
          7
          [\<lparr>lane_id = 2, probability = 3 / 5, path_points = [(0,0),(1,1)],
            lane_direction = (1,0), alignment = 1, distance_to_lane = 4,
            travel_distance = 30\<rparr>])
     = [\<lparr>lane_id = 2, probability = 57 / 100, path_points = [(0,0),(1,1)],
         lane_direction = (1,0), alignment = 1, distance_to_lane = 4,
         travel_distance = 30\<rparr>]"
  by (simp add: smooth_predictions_def smooth_entry_def)

text \<open>
  C1, amended. When the buffer of a vehicle holds two prediction lists after the new list
  has been added (the previous list \<open>old\<close> and the new one), the smoothed output has one
  entry for every index below the length of the shorter list, in order. The entry at index
  \<open>i\<close> is the new list's entry with a new probability: the mean of the two probabilities
  times 0.95 when the lane identifiers at index \<open>i\<close> agree, and the new entry's own
  probability times 0.95 when they differ. So an entry whose lane identifier differs from
  the other list's is kept. The buffer becomes the two lists.
\<close>

theorem smooth_predictions_two_lists:
  assumes "prediction_smoothing tid = Some [old] \<or> prediction_smoothing tid = Some [older, old]"
  shows "smooth_predictions prediction_smoothing tid new =
           (map (\<lambda>i. (new ! i)\<lparr>probability :=
                         (if lane_id (old ! i) = lane_id (new ! i)
                          then (probability (old ! i) + probability (new ! i)) / 2
                          else probability (new ! i)) * (95 / 100)\<rparr>)
                [0..<min (length old) (length new)],
            prediction_smoothing(tid \<mapsto> [old, new]))"
  using assms smooth_two_lists [of old new]
  by (auto simp: smooth_predictions_def Let_def min.commute)

theorem smooth_predictions_two_lists_witness:
  "([7 \<mapsto> [[\<lparr>lane_id = 1, probability = 4 / 5, path_points = [(0,0),(1,0)],
                lane_direction = (1,0), alignment = 1, distance_to_lane = 3,
                travel_distance = 30\<rparr>]]] :: smoothing_state) 7
     = Some [[\<lparr>lane_id = 1, probability = 4 / 5, path_points = [(0,0),(1,0)],
               lane_direction = (1,0), alignment = 1, distance_to_lane = 3,
               travel_distance = 30\<rparr>]] \<and>
   fst (smooth_predictions
          [7 \<mapsto> [[\<lparr>lane_id = 1, probability = 4 / 5, path_points = [(0,0),(1,0)],
                     lane_direction = (1,0), alignment = 1, distance_to_lane = 3,
                     travel_distance = 30\<rparr>]]]
          7
          [\<lparr>lane_id = 1, probability = 3 / 5, path_points = [(0,0),(1,1)],
            lane_direction = (1,0), alignment = 1, distance_to_lane = 4,
            travel_distance = 30\<rparr>])
     = [\<lparr>lane_id = 1, probability = 133 / 200, path_points = [(0,0),(1,1)],
         lane_direction = (1,0), alignment = 1, distance_to_lane = 4,
         travel_distance = 30\<rparr>]"
proof -
  let ?old = "[\<lparr>lane_id = 1, probability = 4 / 5, path_points = [(0,0),(1,0)],
                 lane_direction = (1,0), alignment = 1, distance_to_lane = 3,
                 travel_distance = 30\<rparr>]"
  have h: "([7 \<mapsto> [?old]] :: smoothing_state) 7 = Some [?old]
           \<or> ([7 \<mapsto> [?old]] :: smoothing_state) 7 = Some [[], ?old]"
    by simp
  show ?thesis
    using smooth_predictions_two_lists
            [where prediction_smoothing = "[7 \<mapsto> [?old]]" and tid = 7 and old = ?old
               and older = "[]", OF h]
    by simp
qed


section \<open>Properties of the lane index\<close>

lemma euclidean_zero_iff: "euclidean a b = 0 \<longleftrightarrow> a = b"
proof -
  have "euclidean a b = 0 \<longleftrightarrow> (fst a - fst b)\<^sup>2 + (snd a - snd b)\<^sup>2 = 0"
    by (simp add: euclidean_def)
  also have "\<dots> \<longleftrightarrow> fst a = fst b \<and> snd a = snd b"
    by simp
  also have "\<dots> \<longleftrightarrow> a = b" by (simp add: prod_eq_iff)
  finally show ?thesis .
qed

lemma line_length_nonneg: "0 \<le> line_length cs"
  by (induction cs rule: line_length.induct) (simp_all add: euclidean_nonneg)

lemma line_length_pos_nonempty: "0 < line_length cs \<Longrightarrow> cs \<noteq> []"
  by auto

lemma interpolate_from_defined:
  "cs \<noteq> [] \<Longrightarrow> \<exists>p. interpolate_from cs d = Some p"
  by (induction cs d rule: interpolate_from.induct) (simp_all add: Let_def)

lemma interpolate_from_start:
  "cs \<noteq> [] \<Longrightarrow> interpolate_from cs 0 = Some (hd cs)"
proof (induction cs "0 :: real" rule: interpolate_from.induct)
  case 1
  then show ?case by simp
next
  case (2 p)
  show ?case by simp
next
  case (3 p q rest)
  show ?case
  proof (cases "0 < euclidean p q")
    case True
    then show ?thesis by simp
  next
    case False
    then have z: "euclidean p q = 0" using euclidean_nonneg [of p q] by simp
    then have "p = q" by (simp add: euclidean_zero_iff)
    with z 3 show ?thesis by simp
  qed
qed

lemma interpolate_from_end:
  "cs \<noteq> [] \<Longrightarrow> interpolate_from cs (line_length cs) = Some (last cs)"
proof (induction cs rule: induct_list012)
  case 1
  then show ?case by simp
next
  case (2 p)
  show ?case by simp
next
  case (3 p q rest)
  have "\<not> euclidean p q + line_length (q # rest) < euclidean p q"
    using line_length_nonneg [of "q # rest"] by simp
  with 3 show ?case by simp
qed

text \<open>
  The sampling loop, run up to its \<open>break\<close>: when the progress stays below \<open>max_progress\<close>
  on the indices of \<open>pre\<close> and reaches it at index \<open>j\<close>, the loop returns one point for
  every index of \<open>pre\<close> and one for \<open>j\<close>.
\<close>

lemma path_loop_until_break:
  assumes "cs \<noteq> []"
    and "\<forall>i\<in>set pre. min (s + real i * step) (line_length cs) < maxp"
    and "maxp \<le> min (s + real j * step) (line_length cs)"
  shows "path_loop cs s step maxp (pre @ j # post) acc =
         Some (acc @ map (\<lambda>i. the (interpolate cs (min (s + real i * step) (line_length cs))))
                       (pre @ [j]))"
  using assms(2)
proof (induction pre arbitrary: acc)
  case Nil
  obtain p where "interpolate cs (min (s + real j * step) (line_length cs)) = Some p"
    using interpolate_from_defined [OF assms(1)] unfolding interpolate_def by metis
  with assms(3) show ?case by (simp add: Let_def)
next
  case (Cons i pre)
  obtain p where p: "interpolate cs (min (s + real i * step) (line_length cs)) = Some p"
    using interpolate_from_defined [OF assms(1)] unfolding interpolate_def by metis
  from Cons.prems have below: "\<not> maxp \<le> min (s + real i * step) (line_length cs)"
    and rest: "\<forall>i\<in>set pre. min (s + real i * step) (line_length cs) < maxp"
    by auto
  show ?case
    using Cons.IH [OF rest, of "acc @ [p]"] p below by (simp add: Let_def)
qed

text \<open>
  C5. For a lane of positive length \<open>L\<close>, \<open>get_path_along_lane\<close> with 8 points returns the
  empty list when \<open>start_progress \<ge> L\<close> or \<open>min(start_progress + distance, L) \<le>
  start_progress\<close>; from progress 0 over the distance \<open>L\<close> it returns exactly 8 points, the
  first being the first point of the lane and the last its last point.
\<close>

theorem get_path_along_lane_samples:
  assumes "0 < line_length (coords lane)"
  shows "(line_length (coords lane) \<le> start_progress
            \<or> min (start_progress + distance) (line_length (coords lane)) \<le> start_progress
          \<longrightarrow> get_path_along_lane lane start_progress distance 8 = []) \<and>
         length (get_path_along_lane lane 0 (line_length (coords lane)) 8) = 8 \<and>
         hd (get_path_along_lane lane 0 (line_length (coords lane)) 8) = hd (coords lane) \<and>
         last (get_path_along_lane lane 0 (line_length (coords lane)) 8) = last (coords lane)"
proof -
  define cs where "cs = coords lane"
  define L where "L = line_length cs"
  have L: "0 < L" using assms by (simp add: L_def cs_def)
  have ne: "cs \<noteq> []" using assms unfolding cs_def by (rule line_length_pos_nonempty)
  have empty: "line_length (coords lane) \<le> start_progress
               \<or> min (start_progress + distance) (line_length (coords lane)) \<le> start_progress
               \<longrightarrow> get_path_along_lane lane start_progress distance 8 = []"
    by (auto simp: get_path_along_lane_def Let_def)
  define pt where "pt = (\<lambda>i. the (interpolate cs (min (0 + real i * (L / 7)) (line_length cs))))"
  have upt: "[0..<8] = [0, 1, 2, 3, 4, 5, 6] @ 7 # []"
    by (simp add: upt_rec)
  have below: "\<forall>i\<in>set [0, 1, 2, 3, 4, 5, 6 :: nat]. min (0 + real i * (L / 7)) (line_length cs) < L"
    using L by (simp add: L_def [symmetric])
  have reach: "L \<le> min (0 + real (7 :: nat) * (L / 7)) (line_length cs)"
    by (simp add: L_def [symmetric])
  have loop: "path_loop cs 0 (L / 7) L [0..<8] [] = Some (map pt ([0, 1, 2, 3, 4, 5, 6] @ [7]))"
    unfolding upt pt_def using path_loop_until_break [OF ne below reach, of "[]" "[]"] by simp
  have path: "get_path_along_lane lane 0 L 8 = map pt ([0, 1, 2, 3, 4, 5, 6] @ [7])"
    using L loop by (simp add: get_path_along_lane_def Let_def cs_def [symmetric] L_def [symmetric])
  have first: "pt 0 = hd cs"
    using interpolate_from_start [OF ne] by (simp add: pt_def interpolate_def)
  have final: "pt 7 = last cs"
    using interpolate_from_end [OF ne] L by (simp add: pt_def interpolate_def L_def [symmetric])
  have "length (get_path_along_lane lane 0 L 8) = 8"
       "hd (get_path_along_lane lane 0 L 8) = hd cs"
       "last (get_path_along_lane lane 0 L 8) = last cs"
    unfolding path using first final by simp_all
  with empty show ?thesis by (simp add: L_def cs_def)
qed

theorem get_path_along_lane_samples_witness:
  "0 < line_length (coords \<lparr>lane_ident = 0, coords = [(0,0),(7,0)]\<rparr>) \<and>
   line_length (coords \<lparr>lane_ident = 0, coords = [(0,0),(7,0)]\<rparr>) \<le> 9 \<and>
   get_path_along_lane \<lparr>lane_ident = 0, coords = [(0,0),(7,0)]\<rparr> 9 3 8 = [] \<and>
   length (get_path_along_lane \<lparr>lane_ident = 0, coords = [(0,0),(7,0)]\<rparr> 0 7 8) = 8 \<and>
   hd (get_path_along_lane \<lparr>lane_ident = 0, coords = [(0,0),(7,0)]\<rparr> 0 7 8) = (0,0) \<and>
   last (get_path_along_lane \<lparr>lane_ident = 0, coords = [(0,0),(7,0)]\<rparr> 0 7 8) = (7,0)"
proof -
  have "sqrt 49 = sqrt (7\<^sup>2)" by simp
  also have "\<dots> = 7" by (simp only: real_sqrt_abs abs_numeral)
  finally have len: "line_length (coords \<lparr>lane_ident = 0, coords = [(0,0),(7,0)]\<rparr>) = 7"
    by (simp add: euclidean_def)
  have pos: "0 < line_length (coords \<lparr>lane_ident = 0, coords = [(0,0),(7,0)]\<rparr>)"
    unfolding len by simp
  note samples = get_path_along_lane_samples [OF pos, of 9 3, unfolded len]
  show ?thesis
    using samples unfolding len by simp
qed


section \<open>Properties of the trajectory predictor\<close>

lemma py_index_in_range:
  assumes "0 \<le> i" and "i < int (length xs)"
  shows "py_index xs i = Inr (xs ! nat i)"
  using assms by (simp add: py_index_def)

lemma py_index_from_end:
  assumes "0 < k" and "k \<le> length xs"
  shows "py_index xs (- int k) = Inr (xs ! (length xs - k))"
proof -
  have "nat (int (length xs) - int k) = length xs - k" using assms by simp
  with assms show ?thesis by (simp add: py_index_def)
qed

lemma emap_total:
  assumes "\<And>x. x \<in> set xs \<Longrightarrow> f x = Inr (g x)"
  shows "emap f xs = Inr (map g xs)"
  using assms by (induction xs) (simp_all add: ebind_def)

lemma sum_list_unit_interval:
  fixes xs :: "real list"
  assumes "\<forall>x\<in>set xs. 0 \<le> x \<and> x \<le> 1"
  shows "0 \<le> sum_list xs \<and> sum_list xs \<le> real (length xs)"
  using assms by (induction xs) auto

lemma unit_dot_le_one:
  fixes a b c d :: real
  assumes "a\<^sup>2 + b\<^sup>2 = 1" and "c\<^sup>2 + d\<^sup>2 = 1"
  shows "a * c + b * d \<le> 1"
proof -
  have "0 \<le> (a - c)\<^sup>2 + (b - d)\<^sup>2" by simp
  also have "\<dots> = (a\<^sup>2 + b\<^sup>2) + (c\<^sup>2 + d\<^sup>2) - 2 * (a * c + b * d)"
    by (simp add: power2_eq_square algebra_simps)
  finally show ?thesis using assms by simp
qed

lemma normalised_unit:
  fixes dx dy :: real
  assumes "0 < sqrt (dx * dx + dy * dy)"
  shows "(dx / sqrt (dx * dx + dy * dy))\<^sup>2 + (dy / sqrt (dx * dx + dy * dy))\<^sup>2 = 1"
proof -
  define r where "r = dx * dx + dy * dy"
  have r: "0 < r" using assms by (simp add: r_def)
  have "(dx / sqrt r)\<^sup>2 + (dy / sqrt r)\<^sup>2 = (dx\<^sup>2 + dy\<^sup>2) / (sqrt r)\<^sup>2"
    by (simp add: power_divide add_divide_distrib)
  also have "\<dots> = r / r" using r by (simp add: r_def power2_eq_square)
  also have "\<dots> = 1" using r by simp
  finally show ?thesis by (simp add: r_def)
qed

text \<open>
  The direction consistency never raises on any history, and its value lies in \<open>[0, 1]\<close>.
\<close>

lemma direction_consistency_range:
  "\<exists>c. calculate_direction_consistency positions = Inr c \<and> 0 \<le> c \<and> c \<le> 1"
proof (cases "length positions < 6")
  case True
  then have "calculate_direction_consistency positions = Inr (1 / 2)"
    by (simp add: calculate_direction_consistency_def)
  then show ?thesis by (intro exI [of _ "1 / 2"]) simp
next
  case long: False
  define n where "n = int (length positions)"
  define idx where "idx = filter (\<lambda>i. i > 0) (py_range (n - 3) n)"
  define g where "g = (\<lambda>i.
      let dx = fst (positions ! nat i) - fst (positions ! nat (i - 1));
          dy = snd (positions ! nat i) - snd (positions ! nat (i - 1));
          len = sqrt (dx * dx + dy * dy)
      in if len > 0 then [(dx / len, dy / len)] else [])"
  define directions where "directions = concat (map g idx)"
  define h where "h = (\<lambda>i. max 0 (fst (directions ! nat i) * fst (directions ! nat (i - 1))
                                  + snd (directions ! nat i) * snd (directions ! nat (i - 1))))"
  define js where "js = py_range 1 (int (length directions))"
  have idx_range: "\<And>i. i \<in> set idx \<Longrightarrow> 0 < i \<and> i < n"
    by (auto simp: idx_def py_range_def)
  have first: "emap (\<lambda>i. ebind (py_index positions i) (\<lambda>cur.
                         ebind (py_index positions (i - 1)) (\<lambda>prev.
                           let dx = fst cur - fst prev;
                               dy = snd cur - snd prev;
                               len = sqrt (dx * dx + dy * dy)
                           in Inr (if len > 0 then [(dx / len, dy / len)] else []))))
                    idx = Inr (map g idx)"
  proof (rule emap_total)
    fix i assume "i \<in> set idx"
    then have "0 < i" "i < n" using idx_range by auto
    then have "py_index positions i = Inr (positions ! nat i)"
              "py_index positions (i - 1) = Inr (positions ! nat (i - 1))"
      by (simp_all add: py_index_in_range n_def)
    then show "ebind (py_index positions i) (\<lambda>cur.
                 ebind (py_index positions (i - 1)) (\<lambda>prev.
                   let dx = fst cur - fst prev;
                       dy = snd cur - snd prev;
                       len = sqrt (dx * dx + dy * dy)
                   in Inr (if len > 0 then [(dx / len, dy / len)] else []))) = Inr (g i)"
      by (simp add: ebind_def g_def Let_def)
  qed
  have unit: "\<And>d. d \<in> set directions \<Longrightarrow> (fst d)\<^sup>2 + (snd d)\<^sup>2 = 1"
    by (auto simp: directions_def g_def Let_def normalised_unit split: if_splits)
  have second: "emap (\<lambda>i. ebind (py_index directions i) (\<lambda>d1.
                          ebind (py_index directions (i - 1)) (\<lambda>d0.
                            Inr (max 0 (fst d1 * fst d0 + snd d1 * snd d0)))))
                     js = Inr (map h js)"
  proof (rule emap_total)
    fix i assume "i \<in> set js"
    then have "1 \<le> i" "i < int (length directions)" by (auto simp: js_def py_range_def)
    then have "py_index directions i = Inr (directions ! nat i)"
              "py_index directions (i - 1) = Inr (directions ! nat (i - 1))"
      by (simp_all add: py_index_in_range)
    then show "ebind (py_index directions i) (\<lambda>d1.
                 ebind (py_index directions (i - 1)) (\<lambda>d0.
                   Inr (max 0 (fst d1 * fst d0 + snd d1 * snd d0)))) = Inr (h i)"
      by (simp add: ebind_def h_def)
  qed
  have terms: "\<forall>x\<in>set (map h js). 0 \<le> x \<and> x \<le> 1"
  proof
    fix x assume "x \<in> set (map h js)"
    then obtain i where i: "i \<in> set js" and x: "x = h i" by auto
    then have "1 \<le> i" "i < int (length directions)" by (auto simp: js_def py_range_def)
    then have "directions ! nat i \<in> set directions" "directions ! nat (i - 1) \<in> set directions"
      by (simp_all add: nat_less_iff)
    then have "fst (directions ! nat i) * fst (directions ! nat (i - 1))
               + snd (directions ! nat i) * snd (directions ! nat (i - 1)) \<le> 1"
      by (intro unit_dot_le_one unit)
    then show "0 \<le> x \<and> x \<le> 1" by (simp add: x h_def)
  qed
  have value_eq: "calculate_direction_consistency positions =
        (if length directions < 2 then Inr (1 / 2)
         else Inr (if length (map h js) > 0
                   then sum_list (map h js) / real (length (map h js)) else 1 / 2))"
    using long first second
    by (simp add: calculate_direction_consistency_def Let_def ebind_def
          n_def [symmetric] idx_def [symmetric] directions_def [symmetric] js_def [symmetric])
  show ?thesis
  proof (cases "length directions < 2")
    case True
    then have "calculate_direction_consistency positions = Inr (1 / 2)"
      by (simp add: value_eq)
    then show ?thesis by (intro exI [of _ "1 / 2"]) simp
  next
    case False
    then have cnt: "0 < length (map h js)" by (simp add: js_def py_range_def)
    from sum_list_unit_interval [OF terms]
    have "0 \<le> sum_list (map h js) / real (length (map h js))"
         "sum_list (map h js) / real (length (map h js)) \<le> 1"
      using cnt by (simp_all add: divide_le_eq)
    moreover have "calculate_direction_consistency positions =
                     Inr (sum_list (map h js) / real (length (map h js)))"
      using False cnt by (simp add: value_eq)
    ultimately show ?thesis
      by (intro exI [of _ "sum_list (map h js) / real (length (map h js))"]) simp
  qed
qed


text \<open>
  C4. For a candidate with alignment in \<open>(0, 1]\<close> (the predictor computes a probability
  only for an alignment of at least 0.3, and an alignment is the absolute cosine between
  two unit vectors), the probability never raises and equals
  \<open>alignment \<times> max(0, 1 - distance / 50) \<times> (0.5 + 0.5 \<times> consistency)\<close>, times 1.5 when
  \<open>distance < 15\<close>, clamped to \<open>[0, 1]\<close>; and on the same history with the same alignment,
  the probability at distance 5 is strictly greater than the probability at distance 40.
\<close>

theorem lane_probability_distance_penalty:
  assumes "0 < align" and "align \<le> 1"
  shows "\<exists>c. calculate_direction_consistency positions = Inr c \<and>
             (\<forall>d. calculate_lane_probability positions d align =
                    Inr (max 0 (min 1 (align * max 0 (1 - d / 50) * (1 / 2 + 1 / 2 * c)
                                          * (if d < 15 then 3 / 2 else 1))))) \<and>
             (\<exists>p5 p40. calculate_lane_probability positions 5 align = Inr p5 \<and>
                        calculate_lane_probability positions 40 align = Inr p40 \<and>
                        p40 < p5)"
proof -
  obtain c where c: "calculate_direction_consistency positions = Inr c"
    and c0: "0 \<le> c" and c1: "c \<le> 1"
    using direction_consistency_range by blast
  define k where "k = 1 / 2 + 1 / 2 * c"
  have k: "1 / 2 \<le> k" "k \<le> 1" using c0 c1 by (simp_all add: k_def)
  have ak: "0 < align * k" "align * k \<le> 1"
    using assms k by (simp_all add: mult_le_one)
  have prob: "calculate_lane_probability positions d align =
                Inr (min 1 (if d < 15 then align * max 0 (1 - d / 50) * k * (3 / 2)
                            else align * max 0 (1 - d / 50) * k))" for d
    by (simp add: calculate_lane_probability_def Let_def ebind_def c k_def)
  have formula: "calculate_lane_probability positions d align =
                   Inr (max 0 (min 1 (align * max 0 (1 - d / 50) * (1 / 2 + 1 / 2 * c)
                                         * (if d < 15 then 3 / 2 else 1))))" for d
  proof -
    have "0 \<le> align * max 0 (1 - d / 50) * k" using assms k by simp
    then have "0 \<le> align * max 0 (1 - d / 50) * k * (if d < 15 then 3 / 2 else 1)" by simp
    then show ?thesis unfolding prob by (simp add: k_def)
  qed
  have p5: "calculate_lane_probability positions 5 align = Inr (min 1 (27 / 20 * (align * k)))"
    unfolding prob by simp
  have p40: "calculate_lane_probability positions 40 align = Inr (1 / 5 * (align * k))"
    unfolding prob using ak by simp
  have "1 / 5 * (align * k) < min 1 (27 / 20 * (align * k))" using ak by simp
  with c formula p5 p40 show ?thesis by blast
qed

theorem lane_probability_distance_penalty_witness:
  "(0 :: real) < 1 \<and> (1 :: real) \<le> 1 \<and>
   calculate_lane_probability [(0,0),(1,0),(2,0),(3,0),(4,0),(5,0),(6,0),(7,0)] 5 1 = Inr 1 \<and>
   calculate_lane_probability [(0,0),(1,0),(2,0),(3,0),(4,0),(5,0),(6,0),(7,0)] 40 1 = Inr (1 / 5)"
proof -
  let ?h = "[(0,0),(1,0),(2,0),(3,0),(4,0),(5,0),(6,0),(7,0)] :: point list"
  have a: "(0 :: real) < 1" and b: "(1 :: real) \<le> 1" by simp_all
  have u: "[1..2] = [1, 2 :: int]" by (simp add: upto_rec1)
  have cons: "calculate_direction_consistency ?h = Inr 1"
    by (simp add: calculate_direction_consistency_def py_range_def py_index_def ebind_def
          Let_def u)
  from lane_probability_distance_penalty [OF a b, of ?h]
  obtain c where "calculate_direction_consistency ?h = Inr c"
    and f: "\<forall>d. calculate_lane_probability ?h d 1 =
                Inr (max 0 (min 1 (1 * max 0 (1 - d / 50) * (1 / 2 + 1 / 2 * c)
                                      * (if d < 15 then 3 / 2 else 1))))"
    by blast
  with cons have c: "c = 1" by simp
  show ?thesis using f [rule_format, of 5] f [rule_format, of 40] by (simp add: c)
qed


lemma last_three_indices:
  assumes "4 \<le> length xs"
  shows "filter (\<lambda>i. i > 0) (py_range (int (length xs) - 3) (int (length xs))) =
         [int (length xs) - 3, int (length xs) - 2, int (length xs) - 1]"
proof -
  define n where "n = int (length xs)"
  have n: "4 \<le> n" using assms by (simp add: n_def)
  have "[n - 3..n - 1] = (n - 3) # [n - 2..n - 1]"
    using upto_rec1 [of "n - 3" "n - 1"] by simp
  also have "[n - 2..n - 1] = (n - 2) # [n - 1..n - 1]"
    using upto_rec1 [of "n - 2" "n - 1"] by simp
  finally have "py_range (n - 3) n = [n - 3, n - 2, n - 1]"
    by (simp add: py_range_def)
  with n show ?thesis by (simp add: n_def)
qed

text \<open>
  On at least four positions the smoothed velocity exists: it is the mean of the last
  three frame-to-frame displacements, each divided by the frame interval.
\<close>

lemma smoothed_velocity_value:
  assumes "4 \<le> length xs"
  shows "calculate_smoothed_velocity xs =
         Inr (Some
           (((fst (xs ! (length xs - 3)) - fst (xs ! (length xs - 4))) / (1 / PROCESSING_FPS)
             + (fst (xs ! (length xs - 2)) - fst (xs ! (length xs - 3))) / (1 / PROCESSING_FPS)
             + (fst (xs ! (length xs - 1)) - fst (xs ! (length xs - 2))) / (1 / PROCESSING_FPS)) / 3,
            ((snd (xs ! (length xs - 3)) - snd (xs ! (length xs - 4))) / (1 / PROCESSING_FPS)
             + (snd (xs ! (length xs - 2)) - snd (xs ! (length xs - 3))) / (1 / PROCESSING_FPS)
             + (snd (xs ! (length xs - 1)) - snd (xs ! (length xs - 2))) / (1 / PROCESSING_FPS)) / 3))"
proof -
  define n where "n = int (length xs)"
  have n: "4 \<le> n" using assms by (simp add: n_def)
  have at: "py_index xs (n - int k) = Inr (xs ! (length xs - k))" if "0 < k" "k \<le> 4" for k
  proof -
    have "nat (n - int k) = length xs - k" using assms that by (simp add: n_def)
    moreover have "0 \<le> n - int k" "n - int k < int (length xs)"
      using n that by (simp_all add: n_def)
    ultimately show ?thesis by (simp add: py_index_in_range)
  qed
  have idx: "py_index xs (n - 1) = Inr (xs ! (length xs - 1))"
            "py_index xs (n - 2) = Inr (xs ! (length xs - 2))"
            "py_index xs (n - 3) = Inr (xs ! (length xs - 3))"
            "py_index xs (n - 4) = Inr (xs ! (length xs - 4))"
    using at [of 1] at [of 2] at [of 3] at [of 4] by simp_all
  have shift: "n - 3 - 1 = n - 4" "n - 2 - 1 = n - 3" "n - 1 - 1 = n - 2" by simp_all
  have idxs: "filter (\<lambda>i. i > 0) (py_range (n - 3) n) = [n - 3, n - 2, n - 1]"
    using last_three_indices [OF assms] by (simp add: n_def)
  have "\<not> length xs < 4" using assms by simp
  then show ?thesis
    unfolding calculate_smoothed_velocity_def Let_def n_def [symmetric] idxs
    by (simp add: shift idx ebind_def)
qed

lemma movement_direction_none:
  assumes "5 \<le> length xs"
    and "sqrt ((fst (xs ! (length xs - 1)) - fst (xs ! (length xs - 5))) *
               (fst (xs ! (length xs - 1)) - fst (xs ! (length xs - 5)))
               + (snd (xs ! (length xs - 1)) - snd (xs ! (length xs - 5))) *
                 (snd (xs ! (length xs - 1)) - snd (xs ! (length xs - 5)))) < 2"
  shows "get_movement_direction xs = Inr None"
proof -
  have "py_index xs (- 5) = Inr (xs ! (length xs - 5))"
       "py_index xs (- 1) = Inr (xs ! (length xs - 1))"
    using assms(1) py_index_from_end [of 5 xs] py_index_from_end [of 1 xs] by simp_all
  with assms show ?thesis
    by (simp add: get_movement_direction_def ebind_def Let_def)
qed

lemma movement_direction_no_error:
  "\<exists>r. get_movement_direction xs = Inr r"
proof (cases "length xs < 5")
  case True
  then show ?thesis by (simp add: get_movement_direction_def)
next
  case False
  then have "py_index xs (- 5) = Inr (xs ! (length xs - 5))"
            "py_index xs (- 1) = Inr (xs ! (length xs - 1))"
    using py_index_from_end [of 5 xs] py_index_from_end [of 1 xs] by simp_all
  then show ?thesis
    by (simp add: get_movement_direction_def ebind_def Let_def)
qed

text \<open>
  C6. The predictor returns the empty list, without raising, whenever the history has
  fewer than 8 points, or the smoothed velocity (the mean of the last three
  frame-to-frame displacements, each divided by the frame interval \<open>1 / PROCESSING_FPS\<close>)
  has a speed below 0.5, or the displacement from the position 5 frames back
  (\<open>positions[-5]\<close>) to the current position (\<open>positions[-1]\<close>) is shorter than 2 units.
\<close>

theorem predict_empty_when_precondition_fails:
  fixes history :: "point list"
  shows
    "let n = length history;
         back = (\<lambda>k. history ! (n - k));
         dt = 1 / PROCESSING_FPS;
         vx = ((fst (back 3) - fst (back 4)) / dt + (fst (back 2) - fst (back 3)) / dt
                 + (fst (back 1) - fst (back 2)) / dt) / 3;
         vy = ((snd (back 3) - snd (back 4)) / dt + (snd (back 2) - snd (back 3)) / dt
                 + (snd (back 1) - snd (back 2)) / dt) / 3;
         dx = fst (back 1) - fst (back 5);
         dy = snd (back 1) - snd (back 5)
     in n < 8 \<or> sqrt (vx\<^sup>2 + vy\<^sup>2) < 1 / 2 \<or> sqrt (dx * dx + dy * dy) < 2
        \<longrightarrow> predict_lane_possibilities geo lanes history time_horizon = Inr []"
proof (cases "length history < 8")
  case True
  then show ?thesis by (simp add: predict_lane_possibilities_def Let_def)
next
  case False
  then have four: "4 \<le> length history" and five: "5 \<le> length history" by simp_all
  have cur: "py_index history (- 1) = Inr (history ! (length history - 1))"
    using five py_index_from_end [of 1 history] by simp
  note vel = smoothed_velocity_value [OF four]
  obtain r where dir: "get_movement_direction history = Inr r"
    using movement_direction_no_error by blast
  show ?thesis
    unfolding Let_def
  proof (intro impI)
    assume "length history < 8
              \<or> sqrt ((((fst (history ! (length history - 3)) - fst (history ! (length history - 4))) / (1 / PROCESSING_FPS)
                        + (fst (history ! (length history - 2)) - fst (history ! (length history - 3))) / (1 / PROCESSING_FPS)
                        + (fst (history ! (length history - 1)) - fst (history ! (length history - 2))) / (1 / PROCESSING_FPS)) / 3)\<^sup>2
                     + (((snd (history ! (length history - 3)) - snd (history ! (length history - 4))) / (1 / PROCESSING_FPS)
                        + (snd (history ! (length history - 2)) - snd (history ! (length history - 3))) / (1 / PROCESSING_FPS)
                        + (snd (history ! (length history - 1)) - snd (history ! (length history - 2))) / (1 / PROCESSING_FPS)) / 3)\<^sup>2) < 1 / 2
              \<or> sqrt ((fst (history ! (length history - 1)) - fst (history ! (length history - 5))) *
                      (fst (history ! (length history - 1)) - fst (history ! (length history - 5)))
                      + (snd (history ! (length history - 1)) - snd (history ! (length history - 5))) *
                        (snd (history ! (length history - 1)) - snd (history ! (length history - 5)))) < 2"
    with False consider
        (slow) "get_speed
                  (((fst (history ! (length history - 3)) - fst (history ! (length history - 4))) / (1 / PROCESSING_FPS)
                    + (fst (history ! (length history - 2)) - fst (history ! (length history - 3))) / (1 / PROCESSING_FPS)
                    + (fst (history ! (length history - 1)) - fst (history ! (length history - 2))) / (1 / PROCESSING_FPS)) / 3,
                   ((snd (history ! (length history - 3)) - snd (history ! (length history - 4))) / (1 / PROCESSING_FPS)
                    + (snd (history ! (length history - 2)) - snd (history ! (length history - 3))) / (1 / PROCESSING_FPS)
                    + (snd (history ! (length history - 1)) - snd (history ! (length history - 2))) / (1 / PROCESSING_FPS)) / 3)
                < 1 / 2"
      | (still) "sqrt ((fst (history ! (length history - 1)) - fst (history ! (length history - 5))) *
                      (fst (history ! (length history - 1)) - fst (history ! (length history - 5)))
                      + (snd (history ! (length history - 1)) - snd (history ! (length history - 5))) *
                        (snd (history ! (length history - 1)) - snd (history ! (length history - 5)))) < 2"
      unfolding get_speed_def fst_conv snd_conv by blast
    then show "predict_lane_possibilities geo lanes history time_horizon = Inr []"
    proof cases
      case slow
      with False show ?thesis
        unfolding predict_lane_possibilities_def Let_def cur vel ebind_def
        by simp
    next
      case still
      have "get_movement_direction history = Inr None"
        using five still by (rule movement_direction_none)
      with False show ?thesis
        unfolding predict_lane_possibilities_def Let_def cur vel ebind_def
        by simp
    qed
  qed
qed


theorem predict_empty_when_precondition_fails_witness:
  "length [(0,0),(5,0),(10,0)::point] < 8 \<and>
   predict_lane_possibilities
       \<lparr>ls_distance = (\<lambda>p cs. 0), ls_nearest = (\<lambda>p cs. p), ls_project = (\<lambda>cs p. 0)\<rparr>
       [\<lparr>lane_ident = 0, coords = [(0,0),(100,0)]\<rparr>]
       [(0,0),(5,0),(10,0)] 2 = Inr [] \<and>
   predict_lane_possibilities
       \<lparr>ls_distance = (\<lambda>p cs. 0), ls_nearest = (\<lambda>p cs. p), ls_project = (\<lambda>cs p. 0)\<rparr>
       [\<lparr>lane_ident = 0, coords = [(0,0),(100,0)]\<rparr>]
       [(1,0),(1,0),(1,0),(1,0),(1,0),(1,0),(1,0),(1,0)] 2 = Inr [] \<and>
   predict_lane_possibilities
       \<lparr>ls_distance = (\<lambda>p cs. 0), ls_nearest = (\<lambda>p cs. p), ls_project = (\<lambda>cs p. 0)\<rparr>
       [\<lparr>lane_ident = 0, coords = [(0,0),(100,0)]\<rparr>]
       [(0,0),(0,0),(0,0),(0,0),(-1,0),(0,0),(0,0),(1,0)] 2 = Inr []"
proof -
  let ?geo = "\<lparr>ls_distance = (\<lambda>p cs. 0), ls_nearest = (\<lambda>p cs. p), ls_project = (\<lambda>cs p. 0)\<rparr>"
  let ?lanes = "[\<lparr>lane_ident = 0, coords = [(0,0),(100,0)]\<rparr>]"
  have short: "predict_lane_possibilities ?geo ?lanes [(0,0),(5,0),(10,0)] 2 = Inr []"
    using predict_empty_when_precondition_fails [of "[(0,0),(5,0),(10,0)]" ?geo ?lanes 2]
    by (simp add: Let_def)
  have slow: "predict_lane_possibilities ?geo ?lanes
                [(1,0),(1,0),(1,0),(1,0),(1,0),(1,0),(1,0),(1,0)] 2 = Inr []"
    using predict_empty_when_precondition_fails
            [of "[(1,0),(1,0),(1,0),(1,0),(1,0),(1,0),(1,0),(1,0)]" ?geo ?lanes 2]
    by (simp add: Let_def)
  have still: "predict_lane_possibilities ?geo ?lanes
                 [(0,0),(0,0),(0,0),(0,0),(-1,0),(0,0),(0,0),(1,0)] 2 = Inr []"
    using predict_empty_when_precondition_fails
            [of "[(0,0),(0,0),(0,0),(0,0),(-1,0),(0,0),(0,0),(1,0)]" ?geo ?lanes 2]
    by (simp add: Let_def)
  show ?thesis using short slow still by simp
qed


end
